theory Spec2Isabelle
  imports Main
begin

section \<open>JavaScript values read by the backend\<close>

text \<open>
  The result of \<^verbatim>\<open>JSON.parse\<close>. A property that is missing reads as
  \<^verbatim>\<open>undefined\<close>, which is \<open>None\<close> of \<open>json option\<close>. An object is the list of
  its own properties, each name once. Numbers carry no behaviour of the backend and are
  kept as integers.
\<close>

datatype json =
  JNull
  | JBool bool
  | JNum int
  | JStr string
  | JArr "json list"
  | JObj "(string \<times> json) list"

text \<open>The exceptions a handler of \<^verbatim>\<open>backend/src/index.ts\<close> can meet.\<close>

datatype js_error =
  SyntaxError \<comment> \<open>\<^verbatim>\<open>JSON.parse\<close> or \<^verbatim>\<open>request.json()\<close> on text that is not JSON\<close>
  | TypeError \<comment> \<open>a property read on \<^verbatim>\<open>null\<close>\<close>
  | InvalidFen \<comment> \<open>\<^verbatim>\<open>new Chess(fen)\<close> refusing the position string\<close>
  | SendError \<comment> \<open>\<^verbatim>\<open>ws.send\<close> on a channel that is no longer open\<close>

text \<open>
  \<^verbatim>\<open>data.k\<close> for the property names the backend reads (\<^verbatim>\<open>type\<close>, \<^verbatim>\<open>move\<close>),
  which no primitive and no array carries: reading them off \<^verbatim>\<open>null\<close> throws, off an
  object gives the own property, off anything else gives \<^verbatim>\<open>undefined\<close>.
\<close>

fun get_prop :: "json \<Rightarrow> string \<Rightarrow> js_error + json option" where
  "get_prop JNull k = Inl TypeError"
| "get_prop (JObj kvs) k = Inr (map_of kvs k)"
| "get_prop (JBool b) k = Inr None"
| "get_prop (JNum n) k = Inr None"
| "get_prop (JStr s) k = Inr None"
| "get_prop (JArr xs) k = Inr None"

section \<open>External collaborators of the Game Room\<close>

text \<open>
  \<^verbatim>\<open>chess.move(m)\<close> of chess.js: the move is made and the object mutated (\<open>Moved\<close>),
  a falsy value is returned (\<open>NoMove\<close>), or an exception is thrown (\<open>MoveThrew\<close>).
  The handler guards against both ways of refusing.
\<close>

datatype 'c move_result = Moved 'c | NoMove | MoveThrew

text \<open>
  What the Game Room imports and does not define: \<^verbatim>\<open>JSON.parse\<close> (\<open>None\<close> when it
  throws), the \<^verbatim>\<open>Chess\<close> class of chess.js over its own board type \<open>'c\<close>
  (\<^verbatim>\<open>new Chess()\<close>, \<^verbatim>\<open>new Chess(fen)\<close> with \<open>None\<close> when the constructor throws,
  \<^verbatim>\<open>move\<close>, \<^verbatim>\<open>fen\<close>), the binding \<^verbatim>\<open>env.CALLS_APP_ID\<close>, and the message of
  the exception with which \<^verbatim>\<open>ctx.storage.put\<close> refuses the value \<^verbatim>\<open>undefined\<close>.
\<close>

record 'c env =
  JSON_parse :: "string \<Rightarrow> json option"
  Chess_new :: 'c
  Chess_load :: "string \<Rightarrow> 'c option"
  Chess_move :: "'c \<Rightarrow> json option \<Rightarrow> 'c move_result"
  Chess_fen :: "'c \<Rightarrow> string"
  CALLS_APP_ID :: string
  put_undefined_message :: string

section \<open>The Game Room\<close>

text \<open>A server-side WebSocket accepted by the room; \<^verbatim>\<open>send\<close> throws once it is not open.\<close>

record socket =
  sock_id :: nat
  sock_open :: bool

text \<open>The one outbound frame, \<^verbatim>\<open>{type: "update", fen, lastMove?}\<close>.\<close>

datatype frame = Update string "json option"

text \<open>The effects of the room in program order.\<close>

datatype event =
  StoragePut string string \<comment> \<open>\<^verbatim>\<open>ctx.storage.put(key, value)\<close>\<close>
  | Sent nat frame \<comment> \<open>\<^verbatim>\<open>ws.send(msg)\<close> returned\<close>
  | SendThrew nat frame \<comment> \<open>\<^verbatim>\<open>ws.send(msg)\<close> threw and the exception was caught\<close>
  | MediaCreate \<comment> \<open>the request that creates a meeting\<close>
  | MediaAddParticipant string \<comment> \<open>the request that adds a participant to a meeting\<close>

text \<open>
  Where a \<^verbatim>\<open>/call\<close> request is suspended while its handler awaits the media service:
  at the \<^verbatim>\<open>fetch\<close> that creates the meeting, or at the \<^verbatim>\<open>fetch\<close> that adds a
  participant to the meeting of the given id. These are the two awaits of the handler
  during which the runtime delivers other events to the object.
\<close>

datatype call_stage = AwaitCreate | AwaitParticipant string

text \<open>
  The durable object: its key-value storage (keys \<^verbatim>\<open>fen\<close> and \<^verbatim>\<open>meetingId\<close>, both
  strings), the sockets \<^verbatim>\<open>ctx.getWebSockets()\<close> returns, the number of sockets accepted
  so far, the effects performed so far, the \<^verbatim>\<open>/call\<close> requests in flight, each by its
  number with the await it is suspended at, and the number of \<^verbatim>\<open>/call\<close> requests
  received so far. Reads and writes of the storage are awaited with no other event
  delivered meanwhile, and are taken to succeed on a defined value.
\<close>

record room =
  storage :: "string \<rightharpoonup> string"
  sockets :: "socket list"
  accepted :: nat
  trace :: "event list"
  calls :: "nat \<rightharpoonup> call_stage"
  started :: nat

definition storage_put :: "room \<Rightarrow> string \<Rightarrow> string \<Rightarrow> room" where
  "storage_put st k v =
     st\<lparr>storage := (storage st)(k \<mapsto> v), trace := trace st @ [StoragePut k v]\<rparr>"

definition ws_send :: "socket \<Rightarrow> frame \<Rightarrow> js_error + unit" where
  "ws_send w msg = (if sock_open w then Inr () else Inl SendError)"

text \<open>\<^verbatim>\<open>try { ws.send(msg); } catch(e) {}\<close>\<close>

definition try_send :: "frame \<Rightarrow> socket \<Rightarrow> event" where
  "try_send msg w =
     (case ws_send w msg of
        Inr u \<Rightarrow> Sent (sock_id w) msg
      | Inl e \<Rightarrow> SendThrew (sock_id w) msg)"

text \<open>\<^verbatim>\<open>GameRoom.broadcast\<close>: the \<^verbatim>\<open>forEach\<close> over the room's sockets.\<close>

definition broadcast :: "room \<Rightarrow> frame \<Rightarrow> room" where
  "broadcast st msg = st\<lparr>trace := trace st @ map (try_send msg) (sockets st)\<rparr>"

text \<open>\<^verbatim>\<open>(await this.ctx.storage.get("fen")) || new Chess().fen()\<close>\<close>

definition current_fen :: "'c env \<Rightarrow> room \<Rightarrow> string" where
  "current_fen env st =
     (case storage st ''fen'' of
        None \<Rightarrow> Chess_fen env (Chess_new env)
      | Some f \<Rightarrow> if f = [] then Chess_fen env (Chess_new env) else f)"

text \<open>
  \<^verbatim>\<open>GameRoom.webSocketMessage\<close>, on the text of the frame (a binary frame is decoded
  to text first). The result is the room afterwards and the exception that left the
  handler, if one did. \<^verbatim>\<open>JSON.parse\<close>, \<^verbatim>\<open>new Chess(currentFen)\<close> and
  the read of \<^verbatim>\<open>data.type\<close> stand outside every \<^verbatim>\<open>try\<close>; the move branch is inside
  one whose \<^verbatim>\<open>catch\<close> is empty.
\<close>

definition webSocketMessage ::
  "'c env \<Rightarrow> room \<Rightarrow> socket \<Rightarrow> string \<Rightarrow> room \<times> js_error option" where
  "webSocketMessage env st ws message =
     (case JSON_parse env message of
        None \<Rightarrow> (st, Some SyntaxError)
      | Some data \<Rightarrow>
          (case Chess_load env (current_fen env st) of
             None \<Rightarrow> (st, Some InvalidFen)
           | Some chess \<Rightarrow>
               (case get_prop data ''type'' of
                  Inl e \<Rightarrow> (st, Some e)
                | Inr ty \<Rightarrow>
                    if ty = Some (JStr ''move'') then
                      (case get_prop data ''move'' of
                         Inl e \<Rightarrow> (st, None)
                       | Inr mv \<Rightarrow>
                           (case Chess_move env chess mv of
                              Moved chess' \<Rightarrow>
                                (broadcast
                                   (storage_put st ''fen'' (Chess_fen env chess'))
                                   (Update (Chess_fen env chess') mv),
                                 None)
                            | NoMove \<Rightarrow> (st, None)
                            | MoveThrew \<Rightarrow> (st, None)))
                    else if ty = Some (JStr ''reset'') then
                      (broadcast
                         (storage_put st ''fen'' (Chess_fen env (Chess_new env)))
                         (Update (Chess_fen env (Chess_new env)) None),
                       None)
                    else (st, None))))"

text \<open>The room handles its messages one at a time, each to its end.\<close>

fun run_messages :: "'c env \<Rightarrow> room \<Rightarrow> (socket \<times> string) list \<Rightarrow> room" where
  "run_messages env st [] = st"
| "run_messages env st (m # ms) =
     run_messages env (fst (webSocketMessage env st (fst m) (snd m))) ms"

text \<open>The events a handler added to the trace of the room it started from.\<close>

definition new_events :: "room \<Rightarrow> room \<Rightarrow> event list" where
  "new_events st st' = drop (length (trace st)) (trace st')"

text \<open>The socket an attempted delivery was addressed to.\<close>

fun delivery :: "event \<Rightarrow> (nat \<times> frame) option" where
  "delivery (Sent i msg) = Some (i, msg)"
| "delivery (SendThrew i msg) = Some (i, msg)"
| "delivery (StoragePut k v) = None"
| "delivery MediaCreate = None"
| "delivery (MediaAddParticipant m) = None"

subsection \<open>The HTTP entry point of the room\<close>

record request =
  pathname :: string
  http_method :: string
  upgrade :: "string option" \<comment> \<open>the \<^verbatim>\<open>Upgrade\<close> header\<close>

text \<open>
  What one request to the media service comes to. \<open>FetchThrew msg\<close>: \<^verbatim>\<open>fetch\<close>,
  \<^verbatim>\<open>res.json()\<close> or the read of the body raised an exception with that message.
  \<open>Fetched ok data errorMsg\<close>: \<^verbatim>\<open>res.ok\<close>; the body's \<^verbatim>\<open>data\<close>, \<open>None\<close> when it
  is falsy, else the one field the room reads from it (\<^verbatim>\<open>data.id\<close> of a meeting,
  \<^verbatim>\<open>data.token\<close> of a participant), \<open>None\<close> when the field is \<^verbatim>\<open>undefined\<close>, else
  its value as a string, the empty string standing for a falsy value; and the text of
  \<^verbatim>\<open>errors?.[0]?.message || JSON.stringify(body)\<close>.
\<close>

datatype fetched = FetchThrew string | Fetched bool "string option option" string

text \<open>
  The media service as one call to the room meets it when nothing else happens in
  between: its answer to the request that creates a meeting, and its answer to the
  request that adds a participant to the meeting of a given id.
\<close>

record media =
  create_meeting :: fetched
  add_participant :: "string \<Rightarrow> fetched"

datatype response =
  CallToken "string option" string string \<comment> \<open>200, \<^verbatim>\<open>{authToken, appId, meetingId}\<close>\<close>
  | CallError string \<comment> \<open>500, \<^verbatim>\<open>{error: e.message}\<close>\<close>
  | ExpectedWebSocket \<comment> \<open>426\<close>
  | SwitchingProtocols nat \<comment> \<open>101, with the client end of the socket of that number\<close>
  | GameRoomActive \<comment> \<open>200, \<^verbatim>\<open>Game Room Active\<close>\<close>

definition ends_with :: "string \<Rightarrow> string \<Rightarrow> bool" where
  "ends_with s t = (length t \<le> length s \<and> drop (length s - length t) s = t)"

text \<open>The \<^verbatim>\<open>fetch\<close> that asks the media service for a meeting is sent (lines 82 to 95).\<close>

definition request_meeting :: "room \<Rightarrow> room" where
  "request_meeting st = st\<lparr>trace := trace st @ [MediaCreate]\<rparr>"

text \<open>
  Lines 97 to 105, from the answer of the media service to the stored meeting id.
  \<open>Inl\<close> is the message of the exception thrown to the \<^verbatim>\<open>catch\<close>: the one of the
  request, the handler's own on \<^verbatim>\<open>!createMeetingRes.ok || !meetingData.data\<close>, or the
  one \<^verbatim>\<open>storage.put("meetingId", undefined)\<close> raises when the data carry no id.
\<close>

definition meeting_created :: "'c env \<Rightarrow> room \<Rightarrow> fetched \<Rightarrow> room \<times> (string + string)" where
  "meeting_created env st reply =
     (case reply of
        FetchThrew msg \<Rightarrow> (st, Inl msg)
      | Fetched ok data errorMsg \<Rightarrow>
          (case data of
             None \<Rightarrow> (st, Inl (''Failed to create meeting: '' @ errorMsg))
           | Some found \<Rightarrow>
               if \<not> ok then (st, Inl (''Failed to create meeting: '' @ errorMsg))
               else
                 (case found of
                    None \<Rightarrow> (st, Inl (put_undefined_message env))
                  | Some meetingId \<Rightarrow>
                      (storage_put st ''meetingId'' meetingId, Inr meetingId))))"

text \<open>The \<^verbatim>\<open>fetch\<close> that adds a participant to the meeting is sent (lines 109 to 123).\<close>

definition request_participant :: "room \<Rightarrow> string \<Rightarrow> room" where
  "request_participant st meetingId =
     st\<lparr>trace := trace st @ [MediaAddParticipant meetingId]\<rparr>"

text \<open>Lines 125 to 149, from the answer of the media service to the response.\<close>

definition participant_added :: "'c env \<Rightarrow> string \<Rightarrow> fetched \<Rightarrow> response" where
  "participant_added env meetingId reply =
     (case reply of
        FetchThrew msg \<Rightarrow> CallError msg
      | Fetched ok data errorMsg \<Rightarrow>
          (case data of
             None \<Rightarrow> CallError (''Failed to add participant: '' @ errorMsg)
           | Some token \<Rightarrow>
               if \<not> ok then CallError (''Failed to add participant: '' @ errorMsg)
               else CallToken token (CALLS_APP_ID env) meetingId))"

text \<open>
  Step 1 of the \<^verbatim>\<open>try\<close> block, entered when \<^verbatim>\<open>!meetingId\<close>, with nothing else
  happening while the request is awaited: create the meeting and store its id.
\<close>

definition create_meeting_step ::
  "'c env \<Rightarrow> room \<Rightarrow> media \<Rightarrow> room \<times> (string + string)" where
  "create_meeting_step env st net =
     meeting_created env (request_meeting st) (create_meeting net)"

text \<open>\<^verbatim>\<open>let meetingId = await this.ctx.storage.get("meetingId"); if (!meetingId) { ... }\<close>\<close>

definition ensure_meeting :: "'c env \<Rightarrow> room \<Rightarrow> media \<Rightarrow> room \<times> (string + string)" where
  "ensure_meeting env st net =
     (case storage st ''meetingId'' of
        None \<Rightarrow> create_meeting_step env st net
      | Some meetingId \<Rightarrow>
          if meetingId = [] then create_meeting_step env st net else (st, Inr meetingId))"

text \<open>Step 2 of the \<^verbatim>\<open>try\<close> block: add a participant and answer with its token.\<close>

definition add_participant_step :: "'c env \<Rightarrow> room \<Rightarrow> media \<Rightarrow> string \<Rightarrow> room \<times> response" where
  "add_participant_step env st net meetingId =
     (request_participant st meetingId,
      participant_added env meetingId (add_participant net meetingId))"

text \<open>
  The \<^verbatim>\<open>/call\<close> branch, the \<^verbatim>\<open>try\<close> block and its \<^verbatim>\<open>catch\<close>, when no other event
  reaches the room before the response.
\<close>

definition call :: "'c env \<Rightarrow> room \<Rightarrow> media \<Rightarrow> room \<times> response" where
  "call env st net =
     (case ensure_meeting env st net of
        (st1, Inl msg) \<Rightarrow> (st1, CallError msg)
      | (st1, Inr meetingId) \<Rightarrow> add_participant_step env st1 net meetingId)"

text \<open>\<^verbatim>\<open>this.ctx.acceptWebSocket(server)\<close> on the server end of a new pair.\<close>

definition acceptWebSocket :: "room \<Rightarrow> room" where
  "acceptWebSocket st =
     st\<lparr>sockets := sockets st @ [\<lparr>sock_id = accepted st, sock_open = True\<rparr>],
        accepted := Suc (accepted st)\<rparr>"

text \<open>Lines 152 to 168 of \<^verbatim>\<open>GameRoom.fetch\<close>: the socket upgrade and the default answer.\<close>

definition upgrade_or_default :: "'c env \<Rightarrow> room \<Rightarrow> request \<Rightarrow> room \<times> response" where
  "upgrade_or_default env st req =
     (if ends_with (pathname req) ''/ws'' then
        (if upgrade req \<noteq> Some ''websocket'' then (st, ExpectedWebSocket)
         else
           (case storage st ''fen'' of
              None \<Rightarrow>
                (acceptWebSocket (storage_put st ''fen'' (Chess_fen env (Chess_new env))),
                 SwitchingProtocols (accepted st))
            | Some storedFen \<Rightarrow>
                if storedFen = [] then
                  (acceptWebSocket (storage_put st ''fen'' (Chess_fen env (Chess_new env))),
                   SwitchingProtocols (accepted st))
                else (acceptWebSocket st, SwitchingProtocols (accepted st))))
      else (st, GameRoomActive))"

text \<open>\<^verbatim>\<open>GameRoom.fetch\<close>, run from the request to the response with nothing in between.\<close>

definition GameRoom_fetch :: "'c env \<Rightarrow> room \<Rightarrow> request \<Rightarrow> media \<Rightarrow> room \<times> response" where
  "GameRoom_fetch env st req net =
     (if ends_with (pathname req) ''/call'' \<and> http_method req = ''POST'' then call env st net
      else upgrade_or_default env st req)"

subsection \<open>The room between the awaits of a call\<close>

text \<open>
  A \<^verbatim>\<open>/call\<close> request from its arrival to its first await of the media service: the
  cached meeting id is read, and either the request for a meeting or, with an id cached,
  the request for a participant is sent.
\<close>

definition call_begin :: "room \<Rightarrow> room \<times> call_stage" where
  "call_begin st =
     (case storage st ''meetingId'' of
        None \<Rightarrow> (request_meeting st, AwaitCreate)
      | Some meetingId \<Rightarrow>
          if meetingId = [] then (request_meeting st, AwaitCreate)
          else (request_participant st meetingId, AwaitParticipant meetingId))"

text \<open>
  The handler of a suspended call goes on with the answer of the media service, to its
  next await (\<open>Inl\<close>) or to its response (\<open>Inr\<close>).
\<close>

fun call_resume ::
  "'c env \<Rightarrow> room \<Rightarrow> call_stage \<Rightarrow> fetched \<Rightarrow> room \<times> (call_stage + response)" where
  "call_resume env st AwaitCreate reply =
     (case meeting_created env st reply of
        (st1, Inl msg) \<Rightarrow> (st1, Inr (CallError msg))
      | (st1, Inr meetingId) \<Rightarrow>
          (request_participant st1 meetingId, Inl (AwaitParticipant meetingId)))"
| "call_resume env st (AwaitParticipant meetingId) reply =
     (st, Inr (participant_added env meetingId reply))"

text \<open>
  Everything that happens to a room, one event at a time: a request arrives, the media
  service answers the call of a given number, a message arrives on a socket, the runtime
  drops a socket whose client went away. A \<^verbatim>\<open>/call\<close> request is suspended at its awaits
  of the media service, and any other event may be delivered before the answer; every
  other handler awaits the storage only and runs to its end.
\<close>

datatype room_op =
  Request request
  | Answered nat fetched
  | Message socket string
  | Dropped nat

text \<open>The room after an event, and the response that leaves it with the event, if any.\<close>

fun room_react :: "'c env \<Rightarrow> room \<Rightarrow> room_op \<Rightarrow> room \<times> response option" where
  "room_react env st (Request req) =
     (if ends_with (pathname req) ''/call'' \<and> http_method req = ''POST'' then
        (case call_begin st of
           (st1, stage) \<Rightarrow>
             (st1\<lparr>calls := (calls st1)(started st1 \<mapsto> stage), started := Suc (started st1)\<rparr>,
              None))
      else
        (case upgrade_or_default env st req of (st1, r) \<Rightarrow> (st1, Some r)))"
| "room_react env st (Answered n reply) =
     (case calls st n of
        None \<Rightarrow> (st, None)
      | Some stage \<Rightarrow>
          (case call_resume env st stage reply of
             (st1, Inl stage') \<Rightarrow> (st1\<lparr>calls := (calls st1)(n \<mapsto> stage')\<rparr>, None)
           | (st1, Inr r) \<Rightarrow> (st1\<lparr>calls := (calls st1)(n := None)\<rparr>, Some r)))"
| "room_react env st (Message ws message) = (fst (webSocketMessage env st ws message), None)"
| "room_react env st (Dropped i) =
     (st\<lparr>sockets := filter (\<lambda>w. sock_id w \<noteq> i) (sockets st)\<rparr>, None)"

definition room_step :: "'c env \<Rightarrow> room \<Rightarrow> room_op \<Rightarrow> room" where
  "room_step env st x = fst (room_react env st x)"

fun room_run :: "'c env \<Rightarrow> room \<Rightarrow> room_op list \<Rightarrow> room" where
  "room_run env st [] = st"
| "room_run env st (x # xs) = room_run env (room_step env st x) xs"

text \<open>The responses of a run, event by event.\<close>

fun room_answers :: "'c env \<Rightarrow> room \<Rightarrow> room_op list \<Rightarrow> response option list" where
  "room_answers env st [] = []"
| "room_answers env st (x # xs) =
     snd (room_react env st x) # room_answers env (room_step env st x) xs"

text \<open>
  Two \<^verbatim>\<open>/call\<close> requests, the second arriving while the first awaits the meeting it
  asked for: the calls get the numbers \<open>n\<close> and \<open>n + 1\<close>, the media service creates the
  meetings \<open>mA\<close> and \<open>mB\<close> for them and then adds a participant to each, with the tokens
  \<open>tA\<close> and \<open>tB\<close>.
\<close>

definition racing_calls ::
  "request \<Rightarrow> nat \<Rightarrow> string \<Rightarrow> string \<Rightarrow> string \<Rightarrow> string \<Rightarrow> room_op list" where
  "racing_calls req n mA mB tA tB =
     [Request req, Request req,
      Answered n (Fetched True (Some (Some mA)) []),
      Answered (Suc n) (Fetched True (Some (Some mB)) []),
      Answered n (Fetched True (Some (Some tA)) []),
      Answered (Suc n) (Fetched True (Some (Some tB)) [])]"

text \<open>The test \<^verbatim>\<open>!meetingId\<close> fails: a non-empty meeting id is stored.\<close>

definition has_meeting :: "room \<Rightarrow> bool" where
  "has_meeting st =
     (case storage st ''meetingId'' of None \<Rightarrow> False | Some meetingId \<Rightarrow> meetingId \<noteq> [])"

text \<open>
  A request to the media service that makes the room throw: the request itself raised,
  or \<^verbatim>\<open>!res.ok || !body.data\<close>.
\<close>

fun refused :: "fetched \<Rightarrow> bool" where
  "refused (FetchThrew msg) = True"
| "refused (Fetched ok data errorMsg) = (\<not> ok \<or> data = None)"

text \<open>
  The meeting id the room stores on an answer to its request for a meeting; \<open>None\<close>
  when the answer makes it throw, a missing \<^verbatim>\<open>data.id\<close> included.
\<close>

fun meeting_of :: "fetched \<Rightarrow> string option" where
  "meeting_of (FetchThrew msg) = None"
| "meeting_of (Fetched ok data errorMsg) =
     (case data of None \<Rightarrow> None | Some found \<Rightarrow> if ok then found else None)"

text \<open>The requests to create a meeting among the effects.\<close>

definition meetings_requested :: "event list \<Rightarrow> nat" where
  "meetings_requested evs = length (filter (\<lambda>e. e = MediaCreate) evs)"

section \<open>The Matching Queue\<close>

text \<open>
  The durable object: its storage (the key \<^verbatim>\<open>waiting\<close> holds \<^verbatim>\<open>{playerId}\<close>, kept as
  the identifier) and how many values \<^verbatim>\<open>crypto.randomUUID()\<close> has handed out.
\<close>

record queue =
  slot :: "string \<rightharpoonup> string"
  drawn :: nat

text \<open>
  The request body, declared \<^verbatim>\<open>{ playerId: string }\<close>: \<^verbatim>\<open>request.json()\<close> rejects
  (\<open>BodyThrew\<close>), or the body's \<^verbatim>\<open>playerId\<close>, \<open>None\<close> when the property is absent.
\<close>

datatype join_body = BodyThrew | Body "string option"

datatype status = Waiting | Matched

text \<open>The response body: \<^verbatim>\<open>{status, gameId?, color?, opponentId?}\<close>.\<close>

datatype join_reply =
  Reply (reply_status: status) (reply_gameId: "string option")
    (reply_color: "string option") (reply_opponentId: "string option")

text \<open>
  \<^verbatim>\<open>crypto.randomUUID()\<close>: the source of identifiers is the sequence \<open>uuid\<close>, of which
  the queue takes the next value.
\<close>

definition randomUUID :: "(nat \<Rightarrow> string) \<Rightarrow> queue \<Rightarrow> string \<times> queue" where
  "randomUUID uuid q = (uuid (drawn q), q\<lparr>drawn := Suc (drawn q)\<rparr>)"

text \<open>\<^verbatim>\<open>body.playerId || crypto.randomUUID()\<close>\<close>

definition incoming_id :: "(nat \<Rightarrow> string) \<Rightarrow> queue \<Rightarrow> string option \<Rightarrow> string \<times> queue" where
  "incoming_id uuid q playerId =
     (case playerId of
        None \<Rightarrow> randomUUID uuid q
      | Some p \<Rightarrow> if p = [] then randomUUID uuid q else (p, q))"

text \<open>\<^verbatim>\<open>MatchingQueue.fetch\<close>\<close>

definition MatchingQueue_fetch ::
  "(nat \<Rightarrow> string) \<Rightarrow> queue \<Rightarrow> join_body \<Rightarrow> queue \<times> (js_error + join_reply)" where
  "MatchingQueue_fetch uuid q body =
     (case body of
        BodyThrew \<Rightarrow> (q, Inl SyntaxError)
      | Body playerId \<Rightarrow>
          (case incoming_id uuid q playerId of
             (incomingPlayerId, q1) \<Rightarrow>
               (case slot q ''waiting'' of
                  Some waitingPlayer \<Rightarrow>
                    if waitingPlayer = incomingPlayerId then
                      (q1, Inr (Reply Waiting None None None))
                    else
                      (case randomUUID uuid q1 of
                         (gameId, q2) \<Rightarrow>
                           (q2\<lparr>slot := (slot q2)(''waiting'' := None)\<rparr>,
                            Inr (Reply Matched (Some gameId) (Some ''black'')
                                   (Some waitingPlayer))))
                | None \<Rightarrow>
                    (case randomUUID uuid (q1\<lparr>slot := (slot q1)(''waiting'' \<mapsto> incomingPlayerId)\<rparr>) of
                       (gameId, q2) \<Rightarrow>
                         (q2, Inr (Reply Waiting (Some gameId) (Some ''white'') None))))))"

text \<open>The queue after a sequence of joins, and the answers it gave, in order.\<close>

fun queue_run ::
  "(nat \<Rightarrow> string) \<Rightarrow> queue \<Rightarrow> join_body list \<Rightarrow> queue \<times> (js_error + join_reply) list" where
  "queue_run uuid q [] = (q, [])"
| "queue_run uuid q (b # bs) =
     (case MatchingQueue_fetch uuid q b of
        (q1, r) \<Rightarrow> (case queue_run uuid q1 bs of (q2, rs) \<Rightarrow> (q2, r # rs)))"

section \<open>The Position Validator of the specification\<close>

text \<open>
  The specification's contract \<^verbatim>\<open>apply(position, moveDescriptor) -> position | illegal\<close>,
  read off the three chess.js calls the handler makes: construct from the position, move,
  serialise. \<open>None\<close> is every way of refusing.
\<close>

definition validator :: "'c env \<Rightarrow> string \<Rightarrow> json option \<Rightarrow> string option" where
  "validator env position mv =
     (case Chess_load env position of
        None \<Rightarrow> None
      | Some chess \<Rightarrow>
          (case Chess_move env chess mv of
             Moved chess' \<Rightarrow> Some (Chess_fen env chess')
           | NoMove \<Rightarrow> None
           | MoveThrew \<Rightarrow> None))"

text \<open>The Validator's fold over a sequence of descriptors; \<open>None\<close> once one is refused.\<close>

fun validator_fold :: "'c env \<Rightarrow> string \<Rightarrow> json option list \<Rightarrow> string option" where
  "validator_fold env position [] = Some position"
| "validator_fold env position (mv # mvs) =
     (case validator env position mv of
        None \<Rightarrow> None
      | Some position' \<Rightarrow> validator_fold env position' mvs)"

text \<open>
  The descriptor of an inbound move frame: the text parses, its \<^verbatim>\<open>type\<close> is the string
  \<^verbatim>\<open>move\<close>, and the descriptor is whatever \<^verbatim>\<open>data.move\<close> reads (possibly
  \<^verbatim>\<open>undefined\<close>). \<open>None\<close> for every other text.
\<close>

definition move_frame :: "'c env \<Rightarrow> string \<Rightarrow> json option option" where
  "move_frame env message =
     (case JSON_parse env message of
        None \<Rightarrow> None
      | Some data \<Rightarrow>
          (case get_prop data ''type'' of
             Inl e \<Rightarrow> None
           | Inr ty \<Rightarrow>
               if ty = Some (JStr ''move'') then
                 (case get_prop data ''move'' of Inl e \<Rightarrow> None | Inr mv \<Rightarrow> Some mv)
               else None))"

section \<open>A small instance of the collaborators\<close>

text \<open>
  A two-sided counting game in place of chess: the board is the number of plies played,
  the descriptor \<^verbatim>\<open>"w"\<close> is legal when that number is even and \<^verbatim>\<open>"b"\<close> when it is
  odd. A string descriptor that is not legal throws, any other descriptor returns null.
\<close>

definition ply_fen :: "nat \<Rightarrow> string" where
  "ply_fen n = ''ply'' @ replicate n (CHR ''+'')"

definition ply_load :: "string \<Rightarrow> nat option" where
  "ply_load f =
     (if take 3 f = ''ply'' \<and> drop 3 f = replicate (length f - 3) (CHR ''+'')
      then Some (length f - 3) else None)"

fun ply_move :: "nat \<Rightarrow> json option \<Rightarrow> nat move_result" where
  "ply_move n (Some (JStr m)) =
     (if m = (if even n then ''w'' else ''b'') then Moved (Suc n) else MoveThrew)"
| "ply_move n None = MoveThrew"
| "ply_move n (Some j) = NoMove"

text \<open>\<^verbatim>\<open>JSON.parse\<close> on the handful of texts the examples send.\<close>

definition parse_table :: "string \<Rightarrow> json option" where
  \<open>parse_table = map_of
     [(''{"type":"move","move":"w"}'', JObj [(''type'', JStr ''move''), (''move'', JStr ''w'')]),
      (''{"type":"move","move":"b"}'', JObj [(''type'', JStr ''move''), (''move'', JStr ''b'')]),
      (''{"type":"move","move":7}'', JObj [(''type'', JStr ''move''), (''move'', JNum 7)]),
      (''{"type":"move"}'', JObj [(''type'', JStr ''move'')]),
      (''{"type":"reset"}'', JObj [(''type'', JStr ''reset'')]),
      (''{"type":"chat","text":"hi"}'', JObj [(''type'', JStr ''chat''), (''text'', JStr ''hi'')]),
      (''null'', JNull)]\<close>

definition ply_env :: "nat env" where
  "ply_env =
     \<lparr>JSON_parse = parse_table, Chess_new = 0, Chess_load = ply_load,
      Chess_move = ply_move, Chess_fen = ply_fen, CALLS_APP_ID = ''app'',
      put_undefined_message = ''put() called with undefined value.''\<rparr>"

definition alice :: socket where
  "alice = \<lparr>sock_id = 0, sock_open = True\<rparr>"

definition bob :: socket where
  "bob = \<lparr>sock_id = 1, sock_open = False\<rparr>"

text \<open>A room both have connected to: the initial position is stored, Bob's channel is dead.\<close>

definition room0 :: room where
  "room0 =
     \<lparr>storage = [''fen'' \<mapsto> ''ply''], sockets = [alice, bob], accepted = 2, trace = [],
      calls = Map.empty, started = 0\<rparr>"

text \<open>A room nobody has connected to yet, and the request that opens a socket.\<close>

definition fresh_room :: room where
  "fresh_room =
     \<lparr>storage = Map.empty, sockets = [], accepted = 0, trace = [],
      calls = Map.empty, started = 0\<rparr>"

definition ws_request :: request where
  "ws_request =
     \<lparr>pathname = ''/api/game/g1/ws'', http_method = ''GET'', upgrade = Some ''websocket''\<rparr>"

text \<open>A request for a video call, and a media service in four moods.\<close>

definition call_request :: request where
  "call_request = \<lparr>pathname = ''/api/game/g1/call'', http_method = ''POST'', upgrade = None\<rparr>"

definition media_up :: media where
  "media_up =
     \<lparr>create_meeting = Fetched True (Some (Some ''m1'')) [],
      add_participant = (\<lambda>m. Fetched True (Some (Some (''token-for-'' @ m))) [])\<rparr>"

definition media_half :: media where
  "media_half =
     \<lparr>create_meeting = Fetched True (Some (Some ''m1'')) [],
      add_participant = (\<lambda>m. FetchThrew ''network down'')\<rparr>"

definition media_down :: media where
  "media_down =
     \<lparr>create_meeting = Fetched False None ''quota'',
      add_participant = (\<lambda>m. FetchThrew ''network down'')\<rparr>"

definition media_no_id :: media where
  "media_no_id =
     \<lparr>create_meeting = Fetched True (Some None) [],
      add_participant = (\<lambda>m. Fetched True (Some (Some (''token-for-'' @ m))) [])\<rparr>"

text \<open>An identifier source whose values are pairwise distinct, and the empty queue.\<close>

definition tally :: "nat \<Rightarrow> string" where
  "tally n = ''u'' @ replicate n (CHR ''1'')"

definition queue0 :: queue where
  "queue0 = \<lparr>slot = Map.empty, drawn = 0\<rparr>"

section \<open>Properties of the message handler\<close>

lemma accepted_move_step:
  assumes "move_frame env message = Some mv"
    and "validator env (current_fen env st) mv = Some p"
  shows "webSocketMessage env st ws message =
           (broadcast (storage_put st ''fen'' p) (Update p mv), None)"
  using assms
  by (auto simp: move_frame_def validator_def webSocketMessage_def
      split: option.splits sum.splits move_result.splits if_splits)

lemma refused_move_step:
  assumes "move_frame env message = Some mv"
    and "validator env (current_fen env st) mv = None"
  shows "fst (webSocketMessage env st ws message) = st"
  using assms
  by (auto simp: move_frame_def validator_def webSocketMessage_def
      split: option.splits sum.splits move_result.splits if_splits)

lemma refused_move_no_error:
  assumes "move_frame env message = Some mv"
    and "validator env (current_fen env st) mv = None"
    and "Chess_load env (current_fen env st) \<noteq> None"
  shows "snd (webSocketMessage env st ws message) = None"
  using assms
  by (auto simp: move_frame_def validator_def webSocketMessage_def
      split: option.splits sum.splits move_result.splits if_splits)

lemma broadcast_put_unfold:
  "broadcast (storage_put st k v) msg =
     st\<lparr>storage := (storage st)(k \<mapsto> v),
        trace := trace st @ StoragePut k v # map (try_send msg) (sockets st)\<rparr>"
  by (simp add: broadcast_def storage_put_def)

lemma delivery_try_send: "delivery (try_send msg w) = Some (sock_id w, msg)"
  by (simp add: try_send_def ws_send_def)

lemma new_events_same: "new_events st st = []"
  by (simp add: new_events_def)

lemma current_fen_stored:
  "storage st ''fen'' = Some p \<Longrightarrow> p \<noteq> [] \<Longrightarrow> current_fen env st = p"
  by (simp add: current_fen_def)

lemma run_messages_fold:
  assumes truthy: "\<And>c. Chess_fen env c \<noteq> []"
  shows "current_fen env st = p0 \<Longrightarrow>
         map (\<lambda>m. move_frame env (snd m)) frames = map Some mvs \<Longrightarrow>
         validator_fold env p0 mvs = Some p \<Longrightarrow>
         current_fen env (run_messages env st frames) = p \<and>
         (frames \<noteq> [] \<longrightarrow> storage (run_messages env st frames) ''fen'' = Some p)"
proof (induction frames arbitrary: st p0 mvs)
  case Nil
  then show ?case by simp
next
  case (Cons m frames)
  from Cons.prems(2) obtain mv rest where mvs: "mvs = mv # rest"
    and mf: "move_frame env (snd m) = Some mv"
    and rest: "map (\<lambda>m. move_frame env (snd m)) frames = map Some rest"
    by (cases mvs) auto
  from Cons.prems(3) mvs obtain p1 where v: "validator env p0 mv = Some p1"
    and fold: "validator_fold env p1 rest = Some p"
    by (auto split: option.splits)
  have p1: "p1 \<noteq> []"
    using v truthy by (auto simp: validator_def split: option.splits move_result.splits)
  let ?st1 = "fst (webSocketMessage env st (fst m) (snd m))"
  have st1: "?st1 = broadcast (storage_put st ''fen'' p1) (Update p1 mv)"
    using accepted_move_step [OF mf, of st p1 "fst m"] v Cons.prems(1) by simp
  have stored: "storage ?st1 ''fen'' = Some p1"
    by (simp add: st1 broadcast_put_unfold)
  have cur: "current_fen env ?st1 = p1"
    using stored p1 by (rule current_fen_stored)
  have IH: "current_fen env (run_messages env ?st1 frames) = p \<and>
         (frames \<noteq> [] \<longrightarrow> storage (run_messages env ?st1 frames) ''fen'' = Some p)"
    using Cons.IH [OF cur rest fold] .
  show ?case
  proof (cases frames)
    case Nil
    with rest have "rest = []" by simp
    with fold have "p = p1" by simp
    with Nil stored cur show ?thesis by simp
  next
    case (Cons a list)
    with IH show ?thesis by simp
  qed
qed

lemma handler_errors:
  "snd (webSocketMessage env st ws message) \<in>
     {None, Some SyntaxError, Some InvalidFen, Some TypeError}"
proof -
  have "get_prop data k = Inl e \<Longrightarrow> e = TypeError" for data k e
    by (cases data) auto
  then show ?thesis
    by (auto simp: webSocketMessage_def
        split: option.splits sum.splits move_result.splits)
qed

text \<open>Facts about the counting game, for the examples.\<close>

lemma ply_fen_truthy: "\<forall>c. Chess_fen ply_env c \<noteq> []"
  by (simp add: ply_env_def ply_fen_def)

lemma ply_load_fen: "ply_load (ply_fen n) = Some n"
  by (simp add: ply_load_def ply_fen_def)

lemma ply_fen_simps:
  "ply_fen 0 = ''ply''" "ply_fen (Suc 0) = ''ply+''" "ply_fen (Suc (Suc 0)) = ''ply++''"
  by (simp_all add: ply_fen_def)

lemma current_fen_room0: "current_fen ply_env room0 = ply_fen 0"
  by (simp add: current_fen_def room0_def ply_fen_def)

lemma ply_initial: "Chess_fen ply_env (Chess_new ply_env) = ply_fen 0"
  by (simp add: ply_env_def)

lemma ply_load_room0: "Chess_load ply_env (current_fen ply_env room0) = Some 0"
  unfolding current_fen_room0 by (simp add: ply_env_def ply_load_fen)

section \<open>Properties of the HTTP entry point\<close>

lemma no_create_in_sends: "filter ((\<lambda>e. e = MediaCreate) \<circ> try_send msg) ws = []"
  by (induction ws) (simp_all add: try_send_def ws_send_def)

lemma meetings_requested_broadcast_put:
  "meetings_requested (trace (broadcast (storage_put st k v) msg)) =
     meetings_requested (trace st)"
  by (simp add: broadcast_put_unfold meetings_requested_def no_create_in_sends)

lemma message_keeps_meeting:
  "storage (fst (webSocketMessage env st ws message)) ''meetingId'' = storage st ''meetingId''"
  by (simp add: webSocketMessage_def broadcast_put_unfold
      split: option.splits sum.splits move_result.splits)

lemma message_keeps_calls:
  "calls (fst (webSocketMessage env st ws message)) = calls st"
  by (simp add: webSocketMessage_def broadcast_put_unfold
      split: option.splits sum.splits move_result.splits)

lemma message_requests_no_meeting:
  "meetings_requested (trace (fst (webSocketMessage env st ws message))) =
     meetings_requested (trace st)"
  by (simp add: webSocketMessage_def meetings_requested_broadcast_put
      split: option.splits sum.splits move_result.splits)

lemma ensure_meeting_cached:
  "storage st ''meetingId'' = Some m \<Longrightarrow> m \<noteq> [] \<Longrightarrow> ensure_meeting env st net = (st, Inr m)"
  by (simp add: ensure_meeting_def)

lemma ensure_meeting_uncached:
  "\<not> has_meeting st \<Longrightarrow> ensure_meeting env st net = create_meeting_step env st net"
  by (simp add: ensure_meeting_def has_meeting_def split: option.splits)

lemma meeting_created_cases:
  assumes "meeting_created env st reply = (st1, r)"
  shows "(\<exists>msg. r = Inl msg \<and> meeting_of reply = None \<and> st1 = st) \<or>
         (\<exists>m. r = Inr m \<and> meeting_of reply = Some m \<and>
            st1 = st\<lparr>storage := (storage st)(''meetingId'' \<mapsto> m),
                     trace := trace st @ [StoragePut ''meetingId'' m]\<rparr>)"
  using assms
  by (auto simp: meeting_created_def storage_put_def
      split: fetched.splits option.splits if_splits)

lemma create_meeting_step_cases:
  assumes "create_meeting_step env st net = (st1, r)"
  shows "(\<exists>msg. r = Inl msg \<and> meeting_of (create_meeting net) = None \<and>
            st1 = st\<lparr>trace := trace st @ [MediaCreate]\<rparr>) \<or>
         (\<exists>m. r = Inr m \<and> meeting_of (create_meeting net) = Some m \<and>
            st1 = st\<lparr>storage := (storage st)(''meetingId'' \<mapsto> m),
                     trace := trace st @ [MediaCreate, StoragePut ''meetingId'' m]\<rparr>)"
  using meeting_created_cases [of env "request_meeting st" "create_meeting net" st1 r] assms
  by (auto simp: create_meeting_step_def request_meeting_def)

lemma add_participant_step_state:
  "fst (add_participant_step env st net m) = st\<lparr>trace := trace st @ [MediaAddParticipant m]\<rparr>"
  by (simp add: add_participant_step_def request_participant_def)

lemma participant_added_token: "participant_added env m reply = CallToken t a m' \<Longrightarrow> m' = m"
  by (simp add: participant_added_def split: fetched.splits option.splits if_splits)

lemma participant_added_refused:
  "refused reply \<Longrightarrow> \<exists>msg. participant_added env m reply = CallError msg"
  by (cases reply) (auto simp: participant_added_def split: option.splits)

lemma participant_added_error:
  "participant_added env m reply = CallError msg \<Longrightarrow> refused reply"
  by (cases reply) (auto simp: participant_added_def split: option.splits if_splits)

lemma add_participant_step_token:
  "snd (add_participant_step env st net m) = CallToken t a m' \<Longrightarrow> m' = m"
  by (simp add: add_participant_step_def participant_added_token)

lemma add_participant_step_refused:
  "refused (add_participant net m) \<Longrightarrow>
     \<exists>msg. snd (add_participant_step env st net m) = CallError msg"
  by (simp add: add_participant_step_def participant_added_refused)

lemma add_participant_step_error:
  "snd (add_participant_step env st net m) = CallError msg \<Longrightarrow> refused (add_participant net m)"
  by (simp add: add_participant_step_def participant_added_error)

lemma upgrade_or_default_answers:
  "snd (upgrade_or_default env st req) \<in>
     {ExpectedWebSocket, SwitchingProtocols (accepted st), GameRoomActive}"
  by (simp add: upgrade_or_default_def split: option.splits)

lemma fetch_call_only:
  assumes "snd (GameRoom_fetch env st req net) = CallToken t a m \<or>
           snd (GameRoom_fetch env st req net) = CallError msg"
  shows "GameRoom_fetch env st req net = call env st net"
  using assms upgrade_or_default_answers [of env st req]
  by (auto simp: GameRoom_fetch_def)

lemma call_token_cached:
  assumes "call env st net = (st1, CallToken t a m)"
  shows "storage st1 ''meetingId'' = Some m"
proof (cases "has_meeting st")
  case True
  then obtain c where c: "storage st ''meetingId'' = Some c" "c \<noteq> []"
    by (auto simp: has_meeting_def split: option.splits)
  with assms add_participant_step_token [of env st net c t a m]
  show ?thesis
    by (auto simp: call_def ensure_meeting_cached prod_eq_iff add_participant_step_state)
next
  case False
  obtain s r where cm: "create_meeting_step env st net = (s, r)"
    by (cases "create_meeting_step env st net")
  from create_meeting_step_cases [OF cm] assms False cm
  show ?thesis
    by (auto simp: call_def ensure_meeting_uncached prod_eq_iff add_participant_step_state
        dest: add_participant_step_token)
qed

lemma call_token_requests:
  assumes "call env st net = (st1, CallToken t a m)"
  shows "meetings_requested (new_events st st1) = (if has_meeting st then 0 else 1)"
proof (cases "has_meeting st")
  case True
  then obtain c where c: "storage st ''meetingId'' = Some c" "c \<noteq> []"
    by (auto simp: has_meeting_def split: option.splits)
  with assms True
  show ?thesis
    by (auto simp: call_def ensure_meeting_cached prod_eq_iff new_events_def
        meetings_requested_def add_participant_step_state)
next
  case False
  obtain s r where cm: "create_meeting_step env st net = (s, r)"
    by (cases "create_meeting_step env st net")
  from create_meeting_step_cases [OF cm] assms False cm
  show ?thesis
    by (auto simp: call_def ensure_meeting_uncached prod_eq_iff new_events_def
        meetings_requested_def add_participant_step_state)
qed

lemma call_error_frame:
  assumes "call env st net = (st', CallError msg)"
  shows "storage st' ''fen'' = storage st ''fen'' \<and> sockets st' = sockets st \<and>
         (\<forall>e \<in> set (new_events st st'). delivery e = None) \<and>
         (storage st' ''meetingId'' = storage st ''meetingId'' \<or>
          (\<not> has_meeting st \<and>
           (\<exists>m. meeting_of (create_meeting net) = Some m \<and>
              refused (add_participant net m) \<and> storage st' ''meetingId'' = Some m)))"
proof (cases "has_meeting st")
  case True
  then obtain c where c: "storage st ''meetingId'' = Some c" "c \<noteq> []"
    by (auto simp: has_meeting_def split: option.splits)
  with assms
  show ?thesis
    by (auto simp: call_def ensure_meeting_cached prod_eq_iff new_events_def
        add_participant_step_state)
next
  case False
  obtain s r where cm: "create_meeting_step env st net = (s, r)"
    by (cases "create_meeting_step env st net")
  from create_meeting_step_cases [OF cm]
  show ?thesis
  proof (elim disjE exE conjE)
    fix e assume "r = Inl e" "s = st\<lparr>trace := trace st @ [MediaCreate]\<rparr>"
    with assms False cm show ?thesis
      by (auto simp: call_def ensure_meeting_uncached new_events_def)
  next
    fix m
    assume r: "r = Inr m" and cr: "meeting_of (create_meeting net) = Some m"
      and s: "s = st\<lparr>storage := (storage st)(''meetingId'' \<mapsto> m),
                     trace := trace st @ [MediaCreate, StoragePut ''meetingId'' m]\<rparr>"
    from assms False cm r have ap: "add_participant_step env s net m = (st', CallError msg)"
      by (simp add: call_def ensure_meeting_uncached)
    then have ref: "refused (add_participant net m)"
      using add_participant_step_error [of env s net m msg] by simp
    from ap add_participant_step_state [of env s net m]
    have st': "st' = s\<lparr>trace := trace s @ [MediaAddParticipant m]\<rparr>" by simp
    from st' s cr ref False show ?thesis
      by (auto simp: new_events_def)
  qed
qed

text \<open>What the two pieces of a call between its awaits do to the room.\<close>

lemma call_begin_cases:
  "call_begin st = (st1, stage) \<Longrightarrow>
     (\<not> has_meeting st \<and> stage = AwaitCreate \<and> st1 = st\<lparr>trace := trace st @ [MediaCreate]\<rparr>) \<or>
     (\<exists>m. storage st ''meetingId'' = Some m \<and> m \<noteq> [] \<and> stage = AwaitParticipant m \<and>
        st1 = st\<lparr>trace := trace st @ [MediaAddParticipant m]\<rparr>)"
  by (auto simp: call_begin_def has_meeting_def request_meeting_def request_participant_def
      split: option.splits if_splits)

lemma call_resume_cases:
  "call_resume env st stage reply = (st1, r) \<Longrightarrow>
     (\<exists>m. stage = AwaitParticipant m \<and> st1 = st \<and> r = Inr (participant_added env m reply)) \<or>
     (\<exists>msg. stage = AwaitCreate \<and> meeting_of reply = None \<and> st1 = st \<and>
        r = Inr (CallError msg)) \<or>
     (\<exists>m. stage = AwaitCreate \<and> meeting_of reply = Some m \<and> r = Inl (AwaitParticipant m) \<and>
        st1 = st\<lparr>storage := (storage st)(''meetingId'' \<mapsto> m),
                 trace := trace st @ [StoragePut ''meetingId'' m, MediaAddParticipant m]\<rparr>)"
proof (cases stage)
  case AwaitCreate
  assume a: "call_resume env st stage reply = (st1, r)"
  obtain s x where mc: "meeting_created env st reply = (s, x)"
    by (cases "meeting_created env st reply")
  from meeting_created_cases [OF mc] a AwaitCreate mc show ?thesis
    by (auto simp: request_participant_def)
next
  case (AwaitParticipant m)
  assume "call_resume env st stage reply = (st1, r)"
  with AwaitParticipant show ?thesis by auto
qed

text \<open>
  A call that nothing interrupts is its pieces one after the other: the arrival, and the
  answers of the media service to the requests it sends.
\<close>

lemma call_is_uninterrupted_run:
  shows "call_begin st = (st1, AwaitParticipant m) \<Longrightarrow>
           call env st net = (st1, participant_added env m (add_participant net m))"
    and "call_begin st = (st1, AwaitCreate) \<Longrightarrow>
         call_resume env st1 AwaitCreate (create_meeting net) = (st2, Inr r) \<Longrightarrow>
           call env st net = (st2, r)"
    and "call_begin st = (st1, AwaitCreate) \<Longrightarrow>
         call_resume env st1 AwaitCreate (create_meeting net) = (st2, Inl (AwaitParticipant m)) \<Longrightarrow>
           call env st net = (st2, participant_added env m (add_participant net m))"
  by (auto simp: call_def call_begin_def ensure_meeting_def create_meeting_step_def
      add_participant_step_def split: option.splits prod.splits sum.splits if_splits)

section \<open>The claims about the message handler\<close>

text \<open>
  C1. Starting from the initial position, after a sequence of move frames each of which
  the Validator accepts, the room's position is the Validator's fold over the descriptors,
  and it is what the storage holds. Each accepted move stores the Validator's result
  first and then attempts one delivery of the update frame, carrying the new position and
  the submitted descriptor, to every socket of the room in turn, the mover's included.
  The rules library is taken to serialise positions to non-empty strings.
\<close>

theorem room_position_is_validator_fold:
  assumes truthy: "\<forall>c. Chess_fen env c \<noteq> []"
  shows
    "(current_fen env st = Chess_fen env (Chess_new env) \<and>
      map (\<lambda>m. move_frame env (snd m)) frames = map Some mvs \<and>
      validator_fold env (Chess_fen env (Chess_new env)) mvs = Some p \<longrightarrow>
        current_fen env (run_messages env st frames) = p \<and>
        (frames \<noteq> [] \<longrightarrow> storage (run_messages env st frames) ''fen'' = Some p))
     \<and>
     (move_frame env message = Some mv \<and>
      validator env (current_fen env st) mv = Some p' \<longrightarrow>
        webSocketMessage env st ws message =
          (st\<lparr>storage := (storage st)(''fen'' \<mapsto> p'),
              trace := trace st @
                StoragePut ''fen'' p' # map (try_send (Update p' mv)) (sockets st)\<rparr>,
           None) \<and>
        map delivery (map (try_send (Update p' mv)) (sockets st)) =
          map (\<lambda>w. Some (sock_id w, Update p' mv)) (sockets st) \<and>
        (ws \<in> set (sockets st) \<longrightarrow>
           try_send (Update p' mv) ws \<in>
             set (new_events st (fst (webSocketMessage env st ws message)))))"
proof (intro conjI impI)
  assume a: "current_fen env st = Chess_fen env (Chess_new env) \<and>
      map (\<lambda>m. move_frame env (snd m)) frames = map Some mvs \<and>
      validator_fold env (Chess_fen env (Chess_new env)) mvs = Some p"
  from truthy have t: "\<And>c. Chess_fen env c \<noteq> []" by simp
  from a run_messages_fold [OF t, of st _ frames mvs p]
  show "current_fen env (run_messages env st frames) = p" by blast
  assume "frames \<noteq> []"
  with a run_messages_fold [OF t, of st _ frames mvs p]
  show "storage (run_messages env st frames) ''fen'' = Some p" by blast
next
  assume b: "move_frame env message = Some mv \<and>
      validator env (current_fen env st) mv = Some p'"
  then have step: "webSocketMessage env st ws message =
      (broadcast (storage_put st ''fen'' p') (Update p' mv), None)"
    by (simp add: accepted_move_step)
  then show eq: "webSocketMessage env st ws message =
          (st\<lparr>storage := (storage st)(''fen'' \<mapsto> p'),
              trace := trace st @
                StoragePut ''fen'' p' # map (try_send (Update p' mv)) (sockets st)\<rparr>,
           None)"
    by (simp add: broadcast_put_unfold)
  show "map delivery (map (try_send (Update p' mv)) (sockets st)) =
          map (\<lambda>w. Some (sock_id w, Update p' mv)) (sockets st)"
    by (simp add: delivery_try_send)
  assume "ws \<in> set (sockets st)"
  then show "try_send (Update p' mv) ws \<in>
             set (new_events st (fst (webSocketMessage env st ws message)))"
    by (simp add: eq new_events_def)
qed

theorem room_position_is_validator_fold_witness:
  \<open>(\<forall>c. Chess_fen ply_env c \<noteq> []) \<and>
   current_fen ply_env room0 = Chess_fen ply_env (Chess_new ply_env) \<and>
   map (\<lambda>m. move_frame ply_env (snd m))
     [(alice, ''{"type":"move","move":"w"}''), (bob, ''{"type":"move","move":"b"}'')] =
     map Some [Some (JStr ''w''), Some (JStr ''b'')] \<and>
   validator_fold ply_env (Chess_fen ply_env (Chess_new ply_env))
     [Some (JStr ''w''), Some (JStr ''b'')] = Some ''ply++'' \<and>
   storage (run_messages ply_env room0
     [(alice, ''{"type":"move","move":"w"}''), (bob, ''{"type":"move","move":"b"}'')])
     ''fen'' = Some ''ply++'' \<and>
   move_frame ply_env ''{"type":"move","move":"w"}'' = Some (Some (JStr ''w'')) \<and>
   validator ply_env (current_fen ply_env room0) (Some (JStr ''w'')) = Some ''ply+'' \<and>
   webSocketMessage ply_env room0 alice ''{"type":"move","move":"w"}'' =
     (room0\<lparr>storage := (storage room0)(''fen'' \<mapsto> ''ply+''),
        trace := [StoragePut ''fen'' ''ply+'',
                  Sent 0 (Update ''ply+'' (Some (JStr ''w''))),
                  SendThrew 1 (Update ''ply+'' (Some (JStr ''w'')))]\<rparr>,
      None)\<close>
proof -
  have h0: "\<forall>c. Chess_fen ply_env c \<noteq> []" by (rule ply_fen_truthy)
  have h1: "current_fen ply_env room0 = Chess_fen ply_env (Chess_new ply_env)"
    by (simp add: current_fen_room0 ply_initial)
  have mw: \<open>move_frame ply_env ''{"type":"move","move":"w"}'' = Some (Some (JStr ''w''))\<close>
    by (simp add: move_frame_def ply_env_def parse_table_def)
  have mb: \<open>move_frame ply_env ''{"type":"move","move":"b"}'' = Some (Some (JStr ''b''))\<close>
    by (simp add: move_frame_def ply_env_def parse_table_def)
  have v0: "validator ply_env (ply_fen 0) (Some (JStr ''w'')) = Some (ply_fen (Suc 0))"
    by (simp add: validator_def ply_env_def ply_load_fen)
  have v1: "validator ply_env (ply_fen (Suc 0)) (Some (JStr ''b'')) = Some (ply_fen (Suc (Suc 0)))"
    by (simp add: validator_def ply_env_def ply_load_fen)
  note init = ply_initial
  have h3: "validator_fold ply_env (Chess_fen ply_env (Chess_new ply_env))
     [Some (JStr ''w''), Some (JStr ''b'')] = Some ''ply++''"
    by (simp add: init v0 v1) (simp add: ply_fen_simps)
  have h5: "validator ply_env (current_fen ply_env room0) (Some (JStr ''w'')) = Some ''ply+''"
    using v0 by (simp add: current_fen_room0) (simp add: ply_fen_simps)
  have socks: "sockets room0 = [alice, bob]" "trace room0 = []"
    by (simp_all add: room0_def)
  have sends: "try_send msg alice = Sent 0 msg" "try_send msg bob = SendThrew 1 msg" for msg
    by (simp_all add: try_send_def ws_send_def alice_def bob_def)
  have hm: \<open>map (\<lambda>m. move_frame ply_env (snd m))
     [(alice, ''{"type":"move","move":"w"}''), (bob, ''{"type":"move","move":"b"}'')] =
     map Some [Some (JStr ''w''), Some (JStr ''b'')]\<close>
    by (simp add: mw mb)
  note inst = room_position_is_validator_fold [OF h0, of room0
      \<open>[(alice, ''{"type":"move","move":"w"}''), (bob, ''{"type":"move","move":"b"}'')]\<close>
      "[Some (JStr ''w''), Some (JStr ''b'')]" "''ply++''"
      \<open>''{"type":"move","move":"w"}''\<close> "Some (JStr ''w'')" "''ply+''" alice]
  have c1: \<open>storage (run_messages ply_env room0
     [(alice, ''{"type":"move","move":"w"}''), (bob, ''{"type":"move","move":"b"}'')])
     ''fen'' = Some ''ply++''\<close>
    using inst h1 hm h3 by blast
  have c2: \<open>webSocketMessage ply_env room0 alice ''{"type":"move","move":"w"}'' =
          (room0\<lparr>storage := (storage room0)(''fen'' \<mapsto> ''ply+''),
              trace := trace room0 @
                StoragePut ''fen'' ''ply+'' #
                map (try_send (Update ''ply+'' (Some (JStr ''w'')))) (sockets room0)\<rparr>,
           None)\<close>
    using inst mw h5 by blast
  have c3: \<open>webSocketMessage ply_env room0 alice ''{"type":"move","move":"w"}'' =
     (room0\<lparr>storage := (storage room0)(''fen'' \<mapsto> ''ply+''),
        trace := [StoragePut ''fen'' ''ply+'',
                  Sent 0 (Update ''ply+'' (Some (JStr ''w''))),
                  SendThrew 1 (Update ''ply+'' (Some (JStr ''w'')))]\<rparr>,
      None)\<close>
    unfolding c2 by (simp add: socks sends)
  from h0 h1 hm h3 c1 mw h5 c3 show ?thesis by blast
qed

text \<open>
  C3. A move frame whose descriptor the Validator refuses leaves the room as it was:
  the storage is unchanged and no event, hence no send to any socket, is added; when the
  stored position loads, the handler also ends without an exception.
\<close>

theorem illegal_move_changes_nothing:
  assumes "move_frame env message = Some mv"
    and "validator env (current_fen env st) mv = None"
  shows "fst (webSocketMessage env st ws message) = st \<and>
         storage (fst (webSocketMessage env st ws message)) ''fen'' = storage st ''fen'' \<and>
         new_events st (fst (webSocketMessage env st ws message)) = [] \<and>
         (Chess_load env (current_fen env st) \<noteq> None \<longrightarrow>
            snd (webSocketMessage env st ws message) = None)"
  using refused_move_step [OF assms] refused_move_no_error [OF assms]
  by (simp add: new_events_same)

theorem illegal_move_changes_nothing_witness:
  \<open>move_frame ply_env ''{"type":"move","move":"b"}'' = Some (Some (JStr ''b'')) \<and>
   validator ply_env (current_fen ply_env room0) (Some (JStr ''b'')) = None \<and>
   Chess_load ply_env (current_fen ply_env room0) \<noteq> None \<and>
   webSocketMessage ply_env room0 bob ''{"type":"move","move":"b"}'' = (room0, None)\<close>
proof -
  have mb: \<open>move_frame ply_env ''{"type":"move","move":"b"}'' = Some (Some (JStr ''b''))\<close>
    by (simp add: move_frame_def ply_env_def parse_table_def)
  note ld = ply_load_room0
  have v: "validator ply_env (current_fen ply_env room0) (Some (JStr ''b'')) = None"
    using ld by (simp add: validator_def) (simp add: ply_env_def)
  from illegal_move_changes_nothing [OF mb v, of bob] mb v ld show ?thesis
    by (simp add: prod_eq_iff)
qed

text \<open>
  C4. The part of the claim the handler keeps: an unparseable message changes neither the
  storage nor the trace. The part it breaks: \<^verbatim>\<open>JSON.parse\<close> stands outside the
  \<^verbatim>\<open>try\<close>, so its \<^verbatim>\<open>SyntaxError\<close> leaves the handler uncaught, where a malformed
  descriptor inside a parseable frame is swallowed.
\<close>

theorem unparseable_message_raises:
  assumes "JSON_parse env message = None"
  shows "webSocketMessage env st ws message = (st, Some SyntaxError)"
  using assms by (simp add: webSocketMessage_def)

theorem unparseable_message_raises_witness:
  \<open>JSON_parse ply_env ''{"type":'' = None \<and>
   webSocketMessage ply_env room0 alice ''{"type":'' = (room0, Some SyntaxError)\<close>
proof -
  have h: \<open>JSON_parse ply_env ''{"type":'' = None\<close>
    by (simp add: ply_env_def parse_table_def)
  from h unparseable_message_raises [OF h, of room0 alice] show ?thesis by blast
qed

text \<open>
  C6. Whatever the room holds, provided the stored position is one the rules library
  loads, a reset frame stores the initial position and then attempts one delivery of the
  update frame carrying it to every socket of the room; no exception leaves the handler.
\<close>

theorem reset_restores_initial_position:
  assumes "JSON_parse env message = Some data"
    and "get_prop data ''type'' = Inr (Some (JStr ''reset''))"
    and "Chess_load env (current_fen env st) \<noteq> None"
  shows "webSocketMessage env st ws message =
           (st\<lparr>storage := (storage st)(''fen'' \<mapsto> Chess_fen env (Chess_new env)),
               trace := trace st @
                 StoragePut ''fen'' (Chess_fen env (Chess_new env)) #
                 map (try_send (Update (Chess_fen env (Chess_new env)) None)) (sockets st)\<rparr>,
            None) \<and>
         map delivery (map (try_send (Update (Chess_fen env (Chess_new env)) None)) (sockets st)) =
           map (\<lambda>w. Some (sock_id w, Update (Chess_fen env (Chess_new env)) None)) (sockets st)"
proof -
  from assms have "webSocketMessage env st ws message =
      (broadcast (storage_put st ''fen'' (Chess_fen env (Chess_new env)))
         (Update (Chess_fen env (Chess_new env)) None), None)"
    by (auto simp: webSocketMessage_def)
  then show ?thesis
    by (simp add: broadcast_put_unfold delivery_try_send)
qed

theorem reset_restores_initial_position_witness:
  \<open>JSON_parse ply_env ''{"type":"reset"}'' = Some (JObj [(''type'', JStr ''reset'')]) \<and>
   get_prop (JObj [(''type'', JStr ''reset'')]) ''type'' = Inr (Some (JStr ''reset'')) \<and>
   Chess_load ply_env
     (current_fen ply_env (room0\<lparr>storage := [''fen'' \<mapsto> ''ply+++'']\<rparr>)) \<noteq> None \<and>
   webSocketMessage ply_env (room0\<lparr>storage := [''fen'' \<mapsto> ''ply+++'']\<rparr>) bob
       ''{"type":"reset"}'' =
     (room0\<lparr>storage := [''fen'' \<mapsto> ''ply''],
        trace := [StoragePut ''fen'' ''ply'', Sent 0 (Update ''ply'' None),
                  SendThrew 1 (Update ''ply'' None)]\<rparr>,
      None)\<close>
proof -
  let ?st = "room0\<lparr>storage := [''fen'' \<mapsto> ''ply+++'']\<rparr>"
  have h1: \<open>JSON_parse ply_env ''{"type":"reset"}'' = Some (JObj [(''type'', JStr ''reset'')])\<close>
    by (simp add: ply_env_def parse_table_def)
  have h2: "get_prop (JObj [(''type'', JStr ''reset'')]) ''type'' = Inr (Some (JStr ''reset''))"
    by simp
  have cf: "current_fen ply_env ?st = ply_fen 3"
    by (simp add: current_fen_def ply_fen_def numeral_3_eq_3)
  have h3: "Chess_load ply_env (current_fen ply_env ?st) \<noteq> None"
    unfolding cf by (simp add: ply_env_def ply_load_fen)
  have init: "Chess_fen ply_env (Chess_new ply_env) = ''ply''"
    by (simp add: ply_initial ply_fen_simps)
  have sends: "try_send msg alice = Sent 0 msg" "try_send msg bob = SendThrew 1 msg" for msg
    by (simp_all add: try_send_def ws_send_def alice_def bob_def)
  have c: \<open>webSocketMessage ply_env ?st bob ''{"type":"reset"}'' =
     (room0\<lparr>storage := [''fen'' \<mapsto> ''ply''],
        trace := [StoragePut ''fen'' ''ply'', Sent 0 (Update ''ply'' None),
                  SendThrew 1 (Update ''ply'' None)]\<rparr>,
      None)\<close>
    using reset_restores_initial_position [OF h1 h2 h3, of bob]
    unfolding init by (simp add: room0_def sends)
  from h1 h2 h3 c show ?thesis by blast
qed

text \<open>
  C8. A broadcast attempts exactly one delivery of the frame to each socket of the room,
  in order, whether or not earlier sends threw: the send to an open socket goes through,
  the send to a dead one throws and is caught. It changes nothing but the trace, and no
  handler run ever ends in a send error.
\<close>

theorem broadcast_is_best_effort:
  "map delivery (new_events st (broadcast st msg)) =
     map (\<lambda>w. Some (sock_id w, msg)) (sockets st) \<and>
   (\<forall>i<length (sockets st).
      new_events st (broadcast st msg) ! i =
        (if sock_open (sockets st ! i) then Sent (sock_id (sockets st ! i)) msg
         else SendThrew (sock_id (sockets st ! i)) msg)) \<and>
   storage (broadcast st msg) = storage st \<and>
   sockets (broadcast st msg) = sockets st \<and>
   snd (webSocketMessage env st ws message) \<noteq> Some SendError"
proof -
  have ev: "new_events st (broadcast st msg) = map (try_send msg) (sockets st)"
    by (simp add: new_events_def broadcast_def)
  have "snd (webSocketMessage env st ws message) \<noteq> Some SendError"
    using handler_errors [of env st ws message] by auto
  then show ?thesis
    by (simp add: ev delivery_try_send) (simp add: broadcast_def try_send_def ws_send_def)
qed

theorem broadcast_is_best_effort_witness:
  "(1::nat) < length (sockets room0) \<and>
   \<not> sock_open (sockets room0 ! 1) \<and>
   new_events room0 (broadcast room0 (Update ''ply'' None)) ! 1 =
     SendThrew 1 (Update ''ply'' None) \<and>
   (0::nat) < length (sockets room0) \<and>
   new_events room0 (broadcast room0 (Update ''ply'' None)) ! 0 =
     Sent 0 (Update ''ply'' None)"
proof -
  have s: "sockets room0 = [alice, bob]" by (simp add: room0_def)
  have l1: "(1::nat) < length (sockets room0)" and l0: "(0::nat) < length (sockets room0)"
    by (simp_all add: s)
  note inst = broadcast_is_best_effort [of room0 "Update ''ply'' None" ply_env alice "[]"]
  from inst l1 have "new_events room0 (broadcast room0 (Update ''ply'' None)) ! 1 =
        (if sock_open (sockets room0 ! 1) then Sent (sock_id (sockets room0 ! 1)) (Update ''ply'' None)
         else SendThrew (sock_id (sockets room0 ! 1)) (Update ''ply'' None))"
    by blast
  then have c1: "new_events room0 (broadcast room0 (Update ''ply'' None)) ! 1 =
     SendThrew 1 (Update ''ply'' None)"
    by (simp add: s bob_def)
  from inst l0 have "new_events room0 (broadcast room0 (Update ''ply'' None)) ! 0 =
        (if sock_open (sockets room0 ! 0) then Sent (sock_id (sockets room0 ! 0)) (Update ''ply'' None)
         else SendThrew (sock_id (sockets room0 ! 0)) (Update ''ply'' None))"
    by blast
  then have c0: "new_events room0 (broadcast room0 (Update ''ply'' None)) ! 0 =
     Sent 0 (Update ''ply'' None)"
    by (simp add: s alice_def)
  have d: "\<not> sock_open (sockets room0 ! 1)" by (simp add: s bob_def)
  from l1 d c1 l0 c0 show ?thesis by blast
qed

text \<open>
  C9. A frame that parses and whose \<^verbatim>\<open>type\<close> reads as anything but the strings
  \<^verbatim>\<open>move\<close> and \<^verbatim>\<open>reset\<close> (a missing \<^verbatim>\<open>type\<close> included) leaves the room as it
  was: storage unchanged, no event added, nothing sent; when the stored position loads, the
  handler ends without an exception.
\<close>

theorem unknown_tag_is_ignored:
  assumes "JSON_parse env message = Some data"
    and "get_prop data ''type'' = Inr ty"
    and "ty \<noteq> Some (JStr ''move'')"
    and "ty \<noteq> Some (JStr ''reset'')"
  shows "fst (webSocketMessage env st ws message) = st \<and>
         storage (fst (webSocketMessage env st ws message)) ''fen'' = storage st ''fen'' \<and>
         new_events st (fst (webSocketMessage env st ws message)) = [] \<and>
         (Chess_load env (current_fen env st) \<noteq> None \<longrightarrow>
            snd (webSocketMessage env st ws message) = None)"
proof -
  from assms have a: "fst (webSocketMessage env st ws message) = st"
    by (auto simp: webSocketMessage_def split: option.splits)
  from assms have b: "Chess_load env (current_fen env st) \<noteq> None \<Longrightarrow>
      snd (webSocketMessage env st ws message) = None"
    by (auto simp: webSocketMessage_def split: option.splits)
  from a b show ?thesis by (simp add: new_events_same)
qed

theorem unknown_tag_is_ignored_witness:
  \<open>JSON_parse ply_env ''{"type":"chat","text":"hi"}'' =
     Some (JObj [(''type'', JStr ''chat''), (''text'', JStr ''hi'')]) \<and>
   get_prop (JObj [(''type'', JStr ''chat''), (''text'', JStr ''hi'')]) ''type'' =
     Inr (Some (JStr ''chat'')) \<and>
   Some (JStr ''chat'') \<noteq> Some (JStr ''move'') \<and>
   Some (JStr ''chat'') \<noteq> Some (JStr ''reset'') \<and>
   Chess_load ply_env (current_fen ply_env room0) \<noteq> None \<and>
   webSocketMessage ply_env room0 alice ''{"type":"chat","text":"hi"}'' = (room0, None)\<close>
proof -
  have h1: \<open>JSON_parse ply_env ''{"type":"chat","text":"hi"}'' =
     Some (JObj [(''type'', JStr ''chat''), (''text'', JStr ''hi'')])\<close>
    by (simp add: ply_env_def parse_table_def)
  have h2: "get_prop (JObj [(''type'', JStr ''chat''), (''text'', JStr ''hi'')]) ''type'' =
     Inr (Some (JStr ''chat''))"
    by simp
  have h3: "Some (JStr ''chat'') \<noteq> Some (JStr ''move'')" by simp
  have h4: "Some (JStr ''chat'') \<noteq> Some (JStr ''reset'')" by simp
  have h5: "Chess_load ply_env (current_fen ply_env room0) \<noteq> None"
    by (simp add: ply_load_room0)
  from unknown_tag_is_ignored [OF h1 h2 h3 h4, of room0 alice] h5
  have c: \<open>webSocketMessage ply_env room0 alice ''{"type":"chat","text":"hi"}'' = (room0, None)\<close>
    by (simp add: prod_eq_iff)
  from h1 h2 h3 h4 h5 c show ?thesis by blast
qed

section \<open>The stored position is always one the rules library wrote\<close>

lemma message_keeps_serialised:
  assumes "\<forall>f. storage st ''fen'' = Some f \<longrightarrow> (\<exists>c. f = Chess_fen env c)"
  shows "\<forall>f. storage (fst (webSocketMessage env st ws message)) ''fen'' = Some f \<longrightarrow>
           (\<exists>c. f = Chess_fen env c)"
  using assms
  by (auto simp: webSocketMessage_def broadcast_put_unfold
      split: option.splits sum.splits move_result.splits)

lemma upgrade_or_default_keeps_serialised:
  assumes "\<forall>f. storage st ''fen'' = Some f \<longrightarrow> (\<exists>c. f = Chess_fen env c)"
  shows "\<forall>f. storage (fst (upgrade_or_default env st req)) ''fen'' = Some f \<longrightarrow>
           (\<exists>c. f = Chess_fen env c)"
  using assms
  by (auto simp: upgrade_or_default_def acceptWebSocket_def storage_put_def
      split: option.splits)

text \<open>No piece of a call touches the position, the sockets, or sends anything.\<close>

lemma call_piece_frame:
  assumes "x = Answered n reply \<or>
           (x = Request req \<and> ends_with (pathname req) ''/call'' \<and> http_method req = ''POST'')"
  shows "storage (room_step env st x) ''fen'' = storage st ''fen'' \<and>
         sockets (room_step env st x) = sockets st \<and>
         (\<forall>e \<in> set (new_events st (room_step env st x)). delivery e = None)"
  using assms
proof (elim disjE conjE)
  assume x: "x = Answered n reply"
  show ?thesis
  proof (cases "calls st n")
    case None
    with x show ?thesis by (simp add: room_step_def new_events_def)
  next
    case (Some stage)
    obtain s r where cr: "call_resume env st stage reply = (s, r)"
      by (cases "call_resume env st stage reply")
    from call_resume_cases [OF cr] x Some cr show ?thesis
      by (auto simp: room_step_def new_events_def split: sum.splits)
  qed
next
  assume x: "x = Request req"
    and c: "ends_with (pathname req) ''/call''" "http_method req = ''POST''"
  obtain s stage where cb: "call_begin st = (s, stage)"
    by (cases "call_begin st")
  from call_begin_cases [OF cb] x c cb show ?thesis
    by (auto simp: room_step_def new_events_def)
qed

lemma room_step_keeps_serialised:
  assumes "\<forall>f. storage st ''fen'' = Some f \<longrightarrow> (\<exists>c. f = Chess_fen env c)"
  shows "\<forall>f. storage (room_step env st x) ''fen'' = Some f \<longrightarrow> (\<exists>c. f = Chess_fen env c)"
proof (cases x)
  case (Request req)
  show ?thesis
  proof (cases "ends_with (pathname req) ''/call'' \<and> http_method req = ''POST''")
    case True
    with Request call_piece_frame [of x n reply req env st for n reply] assms
    show ?thesis by simp
  next
    case False
    then have "room_step env st (Request req) = fst (upgrade_or_default env st req)"
      by (auto simp: room_step_def split: prod.splits)
    with Request upgrade_or_default_keeps_serialised [OF assms, of req] show ?thesis
      by simp
  qed
next
  case (Answered n reply)
  with call_piece_frame [of x n reply _ env st] assms show ?thesis by simp
next
  case (Message ws message)
  with message_keeps_serialised [OF assms] show ?thesis by (simp add: room_step_def)
next
  case (Dropped i)
  with assms show ?thesis by (simp add: room_step_def)
qed

lemma room_run_keeps_serialised:
  "\<forall>f. storage st ''fen'' = Some f \<longrightarrow> (\<exists>c. f = Chess_fen env c) \<Longrightarrow>
   \<forall>f. storage (room_run env st ops) ''fen'' = Some f \<longrightarrow> (\<exists>c. f = Chess_fen env c)"
proof (induction ops arbitrary: st)
  case Nil
  then show ?case by simp
next
  case (Cons x ops)
  from Cons.IH [OF room_step_keeps_serialised [OF Cons.prems]] show ?case by simp
qed

text \<open>
  Whatever happened to a room since it was fresh, the position the message handler reads
  is an output of \<^verbatim>\<open>fen()\<close>; so a rules library that loads every position it
  serialises loads it, and the constructor in the handler does not throw.
\<close>

theorem reachable_position_loads:
  assumes "\<forall>c. Chess_load env (Chess_fen env c) \<noteq> None"
  shows "Chess_load env (current_fen env (room_run env fresh_room ops)) \<noteq> None"
proof -
  have "\<forall>f. storage fresh_room ''fen'' = Some f \<longrightarrow> (\<exists>c. f = Chess_fen env c)"
    by (simp add: fresh_room_def)
  from room_run_keeps_serialised [OF this]
  have "\<exists>c. current_fen env (room_run env fresh_room ops) = Chess_fen env c"
    by (auto simp: current_fen_def split: option.splits)
  with assms show ?thesis by auto
qed

theorem reachable_position_loads_witness:
  \<open>(\<forall>c. Chess_load ply_env (Chess_fen ply_env c) \<noteq> None) \<and>
   Chess_load ply_env
     (current_fen ply_env
        (room_run ply_env fresh_room
           [Request ws_request, Request call_request,
            Message alice ''{"type":"move","move":"w"}''])) \<noteq>
     None\<close>
proof -
  have h: "\<forall>c. Chess_load ply_env (Chess_fen ply_env c) \<noteq> None"
    by (simp add: ply_env_def ply_load_fen)
  from h reachable_position_loads [OF h] show ?thesis by blast
qed

section \<open>A cached meeting with no creation in flight\<close>

text \<open>
  The room holds the non-empty meeting id \<open>m\<close> and every call in flight waits for a
  participant of that meeting.
\<close>

lemma upgrade_or_default_frame:
  "storage (fst (upgrade_or_default env st req)) ''meetingId'' = storage st ''meetingId'' \<and>
   calls (fst (upgrade_or_default env st req)) = calls st \<and>
   meetings_requested (trace (fst (upgrade_or_default env st req))) =
     meetings_requested (trace st)"
  by (simp add: upgrade_or_default_def acceptWebSocket_def storage_put_def
      meetings_requested_def split: option.splits)

lemma settled_step:
  assumes m: "storage st ''meetingId'' = Some m" "m \<noteq> []"
    and fl: "\<forall>n stage. calls st n = Some stage \<longrightarrow> stage = AwaitParticipant m"
  shows "storage (room_step env st x) ''meetingId'' = Some m \<and>
         (\<forall>n stage. calls (room_step env st x) n = Some stage \<longrightarrow> stage = AwaitParticipant m) \<and>
         meetings_requested (trace (room_step env st x)) = meetings_requested (trace st) \<and>
         (\<forall>t a m'. snd (room_react env st x) = Some (CallToken t a m') \<longrightarrow> m' = m)"
proof (cases x)
  case (Request req)
  show ?thesis
  proof (cases "ends_with (pathname req) ''/call'' \<and> http_method req = ''POST''")
    case True
    obtain s stage where cb: "call_begin st = (s, stage)"
      by (cases "call_begin st")
    from call_begin_cases [OF cb] m fl Request True cb show ?thesis
      by (auto simp: room_step_def has_meeting_def meetings_requested_def)
  next
    case False
    then have r: "room_react env st (Request req) =
        (fst (upgrade_or_default env st req), Some (snd (upgrade_or_default env st req)))"
      by (auto split: prod.splits)
    have "snd (upgrade_or_default env st req) \<noteq> CallToken t a m'" for t a m'
      using upgrade_or_default_answers [of env st req] by auto
    with Request m fl r upgrade_or_default_frame [of env st req] show ?thesis
      by (simp add: room_step_def)
  qed
next
  case (Answered n reply)
  show ?thesis
  proof (cases "calls st n")
    case None
    with Answered m fl show ?thesis by (simp add: room_step_def)
  next
    case (Some stage)
    with fl have stage: "stage = AwaitParticipant m" by blast
    have r: "room_react env st (Answered n reply) =
        (st\<lparr>calls := (calls st)(n := None)\<rparr>, Some (participant_added env m reply))"
      by (simp add: Some stage)
    have "((calls st)(n := None)) k = Some s \<Longrightarrow> calls st k = Some s" for k s
      by (simp split: if_splits)
    with fl have fl': "\<forall>k s. ((calls st)(n := None)) k = Some s \<longrightarrow> s = AwaitParticipant m"
      by blast
    have tok: "\<forall>t a m'. participant_added env m reply = CallToken t a m' \<longrightarrow> m' = m"
      using participant_added_token [of env m reply] by blast
    show ?thesis
      unfolding Answered room_step_def r using m(1) fl' tok by simp
  qed
next
  case (Message ws message)
  with m fl show ?thesis
    by (simp add: room_step_def message_keeps_meeting message_keeps_calls
        message_requests_no_meeting)
next
  case (Dropped i)
  with m fl show ?thesis by (simp add: room_step_def)
qed

lemma settled_run:
  "storage st ''meetingId'' = Some m \<Longrightarrow> m \<noteq> [] \<Longrightarrow>
   \<forall>n stage. calls st n = Some stage \<longrightarrow> stage = AwaitParticipant m \<Longrightarrow>
     storage (room_run env st ops) ''meetingId'' = Some m \<and>
     meetings_requested (trace (room_run env st ops)) = meetings_requested (trace st) \<and>
     (\<forall>t a m'. Some (CallToken t a m') \<in> set (room_answers env st ops) \<longrightarrow> m' = m)"
proof (induction ops arbitrary: st)
  case Nil
  then show ?case by simp
next
  case (Cons x ops)
  note step = settled_step [OF Cons.prems, of env x]
  from step have a: "storage (room_step env st x) ''meetingId'' = Some m"
    and b: "\<forall>n stage. calls (room_step env st x) n = Some stage \<longrightarrow> stage = AwaitParticipant m"
    and c: "meetings_requested (trace (room_step env st x)) = meetings_requested (trace st)"
    and d: "\<forall>t a m'. snd (room_react env st x) = Some (CallToken t a m') \<longrightarrow> m' = m"
    by blast+
  note IH = Cons.IH [OF a Cons.prems(2) b]
  have "m' = m" if "Some (CallToken t a m') \<in> set (room_answers env st (x # ops))" for t a m'
  proof -
    from that consider "snd (room_react env st x) = Some (CallToken t a m')"
      | "Some (CallToken t a m') \<in> set (room_answers env (room_step env st x) ops)"
      by auto
    then show ?thesis
    proof cases
      case 1
      with d show ?thesis by blast
    next
      case 2
      with IH show ?thesis by blast
    qed
  qed
  with IH c show ?case by simp
qed

text \<open>
  Once a non-empty meeting id is stored and no call is in flight, whatever happens to the
  room afterwards, calls overlapping or not, the id stays, no further meeting is
  requested, and every call answered with a token is answered with that id. A call that
  nothing interrupts and that is answered with a token leaves its meeting id stored,
  having requested a meeting exactly when none was cached.
\<close>

theorem cached_meeting_is_kept:
  "(GameRoom_fetch env st req net = (st1, CallToken t a m) \<longrightarrow>
      storage st1 ''meetingId'' = Some m \<and>
      meetings_requested (new_events st st1) = (if has_meeting st then 0 else 1))
   \<and>
   (storage st1 ''meetingId'' = Some m \<and> m \<noteq> [] \<and> calls st1 = Map.empty \<longrightarrow>
      storage (room_run env st1 ops) ''meetingId'' = Some m \<and>
      meetings_requested (trace (room_run env st1 ops)) = meetings_requested (trace st1) \<and>
      (\<forall>t2 a2 m2. Some (CallToken t2 a2 m2) \<in> set (room_answers env st1 ops) \<longrightarrow> m2 = m))"
proof (intro conjI impI)
  assume a: "GameRoom_fetch env st req net = (st1, CallToken t a m)"
  then have c: "call env st net = (st1, CallToken t a m)"
    using fetch_call_only [of env st req net t a m] by simp
  from call_token_cached [OF c] show "storage st1 ''meetingId'' = Some m" .
  from call_token_requests [OF c]
  show "meetings_requested (new_events st st1) = (if has_meeting st then 0 else 1)" .
next
  assume b: "storage st1 ''meetingId'' = Some m \<and> m \<noteq> [] \<and> calls st1 = Map.empty"
  then have "storage st1 ''meetingId'' = Some m" "m \<noteq> []"
    "\<forall>n stage. calls st1 n = Some stage \<longrightarrow> stage = AwaitParticipant m"
    by simp_all
  from settled_run [OF this, of env ops]
  show "storage (room_run env st1 ops) ''meetingId'' = Some m"
    and "meetings_requested (trace (room_run env st1 ops)) = meetings_requested (trace st1)"
    and "\<forall>t2 a2 m2. Some (CallToken t2 a2 m2) \<in> set (room_answers env st1 ops) \<longrightarrow> m2 = m"
    by blast+
qed

theorem cached_meeting_is_kept_witness:
  "GameRoom_fetch ply_env room0 call_request media_up =
     (room0\<lparr>storage := (storage room0)(''meetingId'' \<mapsto> ''m1''),
        trace := [MediaCreate, StoragePut ''meetingId'' ''m1'', MediaAddParticipant ''m1'']\<rparr>,
      CallToken (Some ''token-for-m1'') ''app'' ''m1'') \<and>
   meetings_requested (new_events room0
     (room0\<lparr>storage := (storage room0)(''meetingId'' \<mapsto> ''m1''),
        trace := [MediaCreate, StoragePut ''meetingId'' ''m1'', MediaAddParticipant ''m1'']\<rparr>)) = 1 \<and>
   ''m1'' \<noteq> [] \<and>
   calls (room0\<lparr>storage := (storage room0)(''meetingId'' \<mapsto> ''m1''),
        trace := [MediaCreate, StoragePut ''meetingId'' ''m1'', MediaAddParticipant ''m1'']\<rparr>) =
     Map.empty \<and>
   storage (room_run ply_env
     (room0\<lparr>storage := (storage room0)(''meetingId'' \<mapsto> ''m1''),
        trace := [MediaCreate, StoragePut ''meetingId'' ''m1'', MediaAddParticipant ''m1'']\<rparr>)
     (racing_calls call_request 0 ''mA'' ''mB'' ''tA'' ''tB'')) ''meetingId'' = Some ''m1''"
proof -
  let ?st1 = "room0\<lparr>storage := (storage room0)(''meetingId'' \<mapsto> ''m1''),
        trace := [MediaCreate, StoragePut ''meetingId'' ''m1'', MediaAddParticipant ''m1'']\<rparr>"
  have path: "ends_with (pathname call_request) ''/call''" "http_method call_request = ''POST''"
    by (simp_all add: call_request_def ends_with_def)
  have none: "\<not> has_meeting room0"
    by (simp add: has_meeting_def room0_def)
  have h1: "GameRoom_fetch ply_env room0 call_request media_up =
      (?st1, CallToken (Some ''token-for-m1'') ''app'' ''m1'')"
    using path
    by (simp add: GameRoom_fetch_def call_def ensure_meeting_def create_meeting_step_def
        meeting_created_def request_meeting_def add_participant_step_def
        request_participant_def participant_added_def storage_put_def media_up_def
        room0_def ply_env_def)
  have h2: "''m1'' \<noteq> []" by simp
  have h3: "calls ?st1 = Map.empty" by (simp add: room0_def)
  have h4: "storage ?st1 ''meetingId'' = Some ''m1''" by simp
  note inst = cached_meeting_is_kept [of ply_env room0 call_request media_up ?st1
      "Some ''token-for-m1''" "''app''" "''m1''"
      "racing_calls call_request 0 ''mA'' ''mB'' ''tA'' ''tB''"]
  from inst h1 none have c1: "meetings_requested (new_events room0 ?st1) = 1" by simp
  from inst h4 h2 h3
  have c2: "storage (room_run ply_env ?st1
      (racing_calls call_request 0 ''mA'' ''mB'' ''tA'' ''tB'')) ''meetingId'' = Some ''m1''"
    by blast
  from h1 c1 h2 h3 c2 show ?thesis by blast
qed

section \<open>The claims about the video call\<close>

lemma racing_arrivals:
  assumes "\<not> has_meeting st"
    and "ends_with (pathname req) ''/call''" and "http_method req = ''POST''"
  shows "room_react env st (Request req) =
           (st\<lparr>trace := trace st @ [MediaCreate],
               calls := (calls st)(started st \<mapsto> AwaitCreate),
               started := Suc (started st)\<rparr>, None)"
  using assms
  by (auto simp: call_begin_def has_meeting_def request_meeting_def split: option.splits)

lemma creation_answered:
  assumes "calls st n = Some AwaitCreate"
  shows "room_react env st (Answered n (Fetched True (Some (Some m)) e)) =
           (st\<lparr>storage := (storage st)(''meetingId'' \<mapsto> m),
               trace := trace st @ [StoragePut ''meetingId'' m, MediaAddParticipant m],
               calls := (calls st)(n \<mapsto> AwaitParticipant m)\<rparr>, None)"
  using assms
  by (simp add: meeting_created_def storage_put_def request_participant_def)

lemma participant_answered:
  assumes "calls st n = Some (AwaitParticipant m)"
  shows "room_react env st (Answered n (Fetched True (Some t) e)) =
           (st\<lparr>calls := (calls st)(n := None)\<rparr>, Some (CallToken t (CALLS_APP_ID env) m))"
  using assms
  by (simp add: participant_added_def)

text \<open>
  C5 fails on the code. Two \<^verbatim>\<open>/call\<close> requests reach a room that has no meeting, the
  second while the first awaits the meeting it asked the media service for. Both read an
  empty \<^verbatim>\<open>meetingId\<close>, so both ask for a meeting: two are created. The id of the first
  is stored and then overwritten by the id of the second, and the two callers are
  answered with tokens for different meetings.
\<close>

theorem concurrent_calls_create_two_meetings:
  assumes "\<not> has_meeting st"
    and "ends_with (pathname req) ''/call''" and "http_method req = ''POST''"
  shows "room_answers env st (racing_calls req (started st) mA mB tA tB) =
           [None, None, None, None,
            Some (CallToken (Some tA) (CALLS_APP_ID env) mA),
            Some (CallToken (Some tB) (CALLS_APP_ID env) mB)] \<and>
         storage (room_run env st (take 3 (racing_calls req (started st) mA mB tA tB)))
           ''meetingId'' = Some mA \<and>
         storage (room_run env st (racing_calls req (started st) mA mB tA tB))
           ''meetingId'' = Some mB \<and>
         meetings_requested
           (new_events st (room_run env st (racing_calls req (started st) mA mB tA tB))) = 2"
proof -
  let ?n = "started st"
  let ?s1 = "st\<lparr>trace := trace st @ [MediaCreate],
               calls := (calls st)(?n \<mapsto> AwaitCreate), started := Suc ?n\<rparr>"
  let ?s2 = "?s1\<lparr>trace := trace ?s1 @ [MediaCreate],
               calls := (calls ?s1)(Suc ?n \<mapsto> AwaitCreate), started := Suc (Suc ?n)\<rparr>"
  let ?s3 = "?s2\<lparr>storage := (storage ?s2)(''meetingId'' \<mapsto> mA),
               trace := trace ?s2 @ [StoragePut ''meetingId'' mA, MediaAddParticipant mA],
               calls := (calls ?s2)(?n \<mapsto> AwaitParticipant mA)\<rparr>"
  let ?s4 = "?s3\<lparr>storage := (storage ?s3)(''meetingId'' \<mapsto> mB),
               trace := trace ?s3 @ [StoragePut ''meetingId'' mB, MediaAddParticipant mB],
               calls := (calls ?s3)(Suc ?n \<mapsto> AwaitParticipant mB)\<rparr>"
  let ?s5 = "?s4\<lparr>calls := (calls ?s4)(?n := None)\<rparr>"
  let ?s6 = "?s5\<lparr>calls := (calls ?s5)(Suc ?n := None)\<rparr>"
  have r1: "room_react env st (Request req) = (?s1, None)"
    using assms by (rule racing_arrivals)
  have "\<not> has_meeting ?s1" using assms(1) by (simp add: has_meeting_def)
  from racing_arrivals [OF this assms(2,3), of env]
  have r2: "room_react env ?s1 (Request req) = (?s2, None)" by simp
  have "calls ?s2 ?n = Some AwaitCreate" by simp
  from creation_answered [OF this, of env mA "[]"]
  have r3: "room_react env ?s2 (Answered ?n (Fetched True (Some (Some mA)) [])) = (?s3, None)" .
  have "calls ?s3 (Suc ?n) = Some AwaitCreate" by simp
  from creation_answered [OF this, of env mB "[]"]
  have r4: "room_react env ?s3 (Answered (Suc ?n) (Fetched True (Some (Some mB)) [])) = (?s4, None)" .
  have "calls ?s4 ?n = Some (AwaitParticipant mA)" by simp
  from participant_answered [OF this, of env "Some tA" "[]"]
  have r5: "room_react env ?s4 (Answered ?n (Fetched True (Some (Some tA)) [])) =
      (?s5, Some (CallToken (Some tA) (CALLS_APP_ID env) mA))" .
  have "calls ?s5 (Suc ?n) = Some (AwaitParticipant mB)" by simp
  from participant_answered [OF this, of env "Some tB" "[]"]
  have r6: "room_react env ?s5 (Answered (Suc ?n) (Fetched True (Some (Some tB)) [])) =
      (?s6, Some (CallToken (Some tB) (CALLS_APP_ID env) mB))" .
  have answers: "room_answers env st (racing_calls req ?n mA mB tA tB) =
           [None, None, None, None,
            Some (CallToken (Some tA) (CALLS_APP_ID env) mA),
            Some (CallToken (Some tB) (CALLS_APP_ID env) mB)]"
    by (simp only: racing_calls_def room_answers.simps room_step_def r1 r2 r3 r4 r5 r6
        fst_conv snd_conv)
  have run3: "room_run env st (take 3 (racing_calls req ?n mA mB tA tB)) = ?s3"
    by (simp only: racing_calls_def numeral_3_eq_3 take_Suc_Cons take_0 room_run.simps
        room_step_def r1 r2 r3 fst_conv)
  have run6: "room_run env st (racing_calls req ?n mA mB tA tB) = ?s6"
    by (simp only: racing_calls_def room_run.simps room_step_def r1 r2 r3 r4 r5 r6 fst_conv)
  have count: "meetings_requested (new_events st ?s6) = 2"
    by (simp add: new_events_def meetings_requested_def)
  show ?thesis
    unfolding answers run3 run6 using count by simp
qed

theorem concurrent_calls_create_two_meetings_witness:
  "\<not> has_meeting fresh_room \<and>
   ends_with (pathname call_request) ''/call'' \<and> http_method call_request = ''POST'' \<and>
   room_answers ply_env fresh_room (racing_calls call_request 0 ''mA'' ''mB'' ''tA'' ''tB'') =
     [None, None, None, None,
      Some (CallToken (Some ''tA'') ''app'' ''mA''),
      Some (CallToken (Some ''tB'') ''app'' ''mB'')] \<and>
   storage (room_run ply_env fresh_room
     (take 3 (racing_calls call_request 0 ''mA'' ''mB'' ''tA'' ''tB''))) ''meetingId'' =
     Some ''mA'' \<and>
   storage (room_run ply_env fresh_room
     (racing_calls call_request 0 ''mA'' ''mB'' ''tA'' ''tB'')) ''meetingId'' = Some ''mB'' \<and>
   meetings_requested (new_events fresh_room (room_run ply_env fresh_room
     (racing_calls call_request 0 ''mA'' ''mB'' ''tA'' ''tB''))) = 2"
proof -
  have h1: "\<not> has_meeting fresh_room"
    by (simp add: has_meeting_def fresh_room_def)
  have h2: "ends_with (pathname call_request) ''/call''"
    and h3: "http_method call_request = ''POST''"
    by (simp_all add: call_request_def ends_with_def)
  have n: "started fresh_room = 0" and app: "CALLS_APP_ID ply_env = ''app''"
    by (simp_all add: fresh_room_def ply_env_def)
  note inst = concurrent_calls_create_two_meetings [OF h1 h2 h3, of ply_env
      "''mA''" "''mB''" "''tA''" "''tB''", unfolded n app]
  from h1 h2 h3 inst show ?thesis by blast
qed

text \<open>
  C7, as the claim states it, fails: when the media service creates the meeting and then
  fails to add the participant, the caller gets the error and the meeting id created by
  the failed call stays in the storage.
\<close>

theorem failed_call_caches_meeting:
  "snd (GameRoom_fetch ply_env room0 call_request media_half) = CallError ''network down'' \<and>
   storage room0 ''meetingId'' = None \<and>
   storage (fst (GameRoom_fetch ply_env room0 call_request media_half)) ''meetingId'' =
     Some ''m1''"
proof -
  have path: "ends_with (pathname call_request) ''/call''" "http_method call_request = ''POST''"
    by (simp_all add: call_request_def ends_with_def)
  then show ?thesis
    by (simp add: GameRoom_fetch_def call_def ensure_meeting_def create_meeting_step_def
        meeting_created_def request_meeting_def add_participant_step_def
        request_participant_def participant_added_def storage_put_def media_half_def
        room0_def)
qed

text \<open>
  C7, amended. A call that answers with an error leaves the stored position and the
  sockets as they were and attempts no send. The stored meeting id is unchanged too,
  except when the room had none, this call created the meeting and the failure came from
  adding the participant: then the new id stays stored. Every failure is answered with an
  error: a creation that yields no meeting id when none is cached (the request raised,
  the answer was not ok, carried no data, or carried data without an id), after which
  nothing but the request is recorded, and a refused participant for the meeting in use.
  The same holds piece by piece when other events come between the awaits of a call: no
  arrival of a call and no answer of the media service to one changes the stored
  position or the sockets, or sends anything.
\<close>

theorem media_failure_is_local:
  "(GameRoom_fetch env st req net = (st', CallError msg) \<longrightarrow>
      storage st' ''fen'' = storage st ''fen'' \<and> sockets st' = sockets st \<and>
      (\<forall>e \<in> set (new_events st st'). delivery e = None) \<and>
      (storage st' ''meetingId'' = storage st ''meetingId'' \<or>
       (\<not> has_meeting st \<and>
        (\<exists>m. meeting_of (create_meeting net) = Some m \<and>
           refused (add_participant net m) \<and> storage st' ''meetingId'' = Some m))))
   \<and>
   (ends_with (pathname req) ''/call'' \<and> http_method req = ''POST'' \<and>
    \<not> has_meeting st \<and> meeting_of (create_meeting net) = None \<longrightarrow>
      (\<exists>msg. GameRoom_fetch env st req net =
         (st\<lparr>trace := trace st @ [MediaCreate]\<rparr>, CallError msg)))
   \<and>
   (ends_with (pathname req) ''/call'' \<and> http_method req = ''POST'' \<and>
    ensure_meeting env st net = (st1, Inr m1) \<and> refused (add_participant net m1) \<longrightarrow>
      (\<exists>msg. GameRoom_fetch env st req net =
         (st1\<lparr>trace := trace st1 @ [MediaAddParticipant m1]\<rparr>, CallError msg)))
   \<and>
   (x = Answered n reply \<or>
    (x = Request req \<and> ends_with (pathname req) ''/call'' \<and> http_method req = ''POST'') \<longrightarrow>
      storage (room_step env st x) ''fen'' = storage st ''fen'' \<and>
      sockets (room_step env st x) = sockets st \<and>
      (\<forall>e \<in> set (new_events st (room_step env st x)). delivery e = None))"
proof (intro conjI impI)
  assume a: "GameRoom_fetch env st req net = (st', CallError msg)"
  then have c: "call env st net = (st', CallError msg)"
    using fetch_call_only [of env st req net _ _ _ msg] by simp
  from call_error_frame [OF c]
  show "storage st' ''fen'' = storage st ''fen''" and "sockets st' = sockets st"
    and "\<forall>e \<in> set (new_events st st'). delivery e = None"
    and "storage st' ''meetingId'' = storage st ''meetingId'' \<or>
       (\<not> has_meeting st \<and>
        (\<exists>m. meeting_of (create_meeting net) = Some m \<and>
           refused (add_participant net m) \<and> storage st' ''meetingId'' = Some m))"
    by blast+
next
  assume b: "ends_with (pathname req) ''/call'' \<and> http_method req = ''POST'' \<and>
    \<not> has_meeting st \<and> meeting_of (create_meeting net) = None"
  then have f: "GameRoom_fetch env st req net = call env st net"
    by (simp add: GameRoom_fetch_def)
  obtain s r where cm: "create_meeting_step env st net = (s, r)"
    by (cases "create_meeting_step env st net")
  from create_meeting_step_cases [OF cm] b
  obtain e where "r = Inl e" "s = st\<lparr>trace := trace st @ [MediaCreate]\<rparr>"
    by auto
  with b cm show "\<exists>msg. GameRoom_fetch env st req net =
         (st\<lparr>trace := trace st @ [MediaCreate]\<rparr>, CallError msg)"
    unfolding f by (simp add: call_def ensure_meeting_uncached)
next
  assume b: "ends_with (pathname req) ''/call'' \<and> http_method req = ''POST'' \<and>
    ensure_meeting env st net = (st1, Inr m1) \<and> refused (add_participant net m1)"
  then have f: "GameRoom_fetch env st req net = call env st net"
    by (simp add: GameRoom_fetch_def)
  from b have c: "call env st net = add_participant_step env st1 net m1"
    by (simp add: call_def)
  from b add_participant_step_refused [of net m1 env st1]
  obtain msg where "snd (add_participant_step env st1 net m1) = CallError msg"
    by blast
  then have "add_participant_step env st1 net m1 =
      (st1\<lparr>trace := trace st1 @ [MediaAddParticipant m1]\<rparr>, CallError msg)"
    by (simp add: prod_eq_iff add_participant_step_state)
  then show "\<exists>msg. GameRoom_fetch env st req net =
         (st1\<lparr>trace := trace st1 @ [MediaAddParticipant m1]\<rparr>, CallError msg)"
    unfolding f c by blast
next
  assume p: "x = Answered n reply \<or>
    (x = Request req \<and> ends_with (pathname req) ''/call'' \<and> http_method req = ''POST'')"
  from call_piece_frame [OF p, of env st]
  show "storage (room_step env st x) ''fen'' = storage st ''fen''"
    and "sockets (room_step env st x) = sockets st"
    and "\<forall>e \<in> set (new_events st (room_step env st x)). delivery e = None"
    by blast+
qed

theorem media_failure_is_local_witness:
  "GameRoom_fetch ply_env room0 call_request media_down =
     (room0\<lparr>trace := [MediaCreate]\<rparr>, CallError ''Failed to create meeting: quota'') \<and>
   storage (room0\<lparr>trace := [MediaCreate]\<rparr>) ''fen'' = storage room0 ''fen'' \<and>
   ends_with (pathname call_request) ''/call'' \<and> http_method call_request = ''POST'' \<and>
   \<not> has_meeting room0 \<and> meeting_of (create_meeting media_no_id) = None \<and>
   (\<exists>msg. GameRoom_fetch ply_env room0 call_request media_no_id =
      (room0\<lparr>trace := trace room0 @ [MediaCreate]\<rparr>, CallError msg)) \<and>
   ensure_meeting ply_env room0 media_half =
     (room0\<lparr>storage := (storage room0)(''meetingId'' \<mapsto> ''m1''),
        trace := [MediaCreate, StoragePut ''meetingId'' ''m1'']\<rparr>, Inr ''m1'') \<and>
   refused (add_participant media_half ''m1'') \<and>
   (\<exists>msg. GameRoom_fetch ply_env room0 call_request media_half =
      (room0\<lparr>storage := (storage room0)(''meetingId'' \<mapsto> ''m1''),
         trace := [MediaCreate, StoragePut ''meetingId'' ''m1'', MediaAddParticipant ''m1'']\<rparr>,
       CallError msg)) \<and>
   sockets (room_step ply_env room0 (Request call_request)) = sockets room0"
proof -
  let ?s = "room0\<lparr>storage := (storage room0)(''meetingId'' \<mapsto> ''m1''),
        trace := [MediaCreate, StoragePut ''meetingId'' ''m1'']\<rparr>"
  have path: "ends_with (pathname call_request) ''/call''" "http_method call_request = ''POST''"
    by (simp_all add: call_request_def ends_with_def)
  have none: "\<not> has_meeting room0"
    by (simp add: has_meeting_def room0_def)
  have h1: "GameRoom_fetch ply_env room0 call_request media_down =
     (room0\<lparr>trace := [MediaCreate]\<rparr>, CallError ''Failed to create meeting: quota'')"
    using path
    by (simp add: GameRoom_fetch_def call_def ensure_meeting_def create_meeting_step_def
        meeting_created_def request_meeting_def media_down_def room0_def)
  have r1: "meeting_of (create_meeting media_no_id) = None" by (simp add: media_no_id_def)
  have e: "ensure_meeting ply_env room0 media_half = (?s, Inr ''m1'')"
    by (simp add: ensure_meeting_def create_meeting_step_def meeting_created_def
        request_meeting_def storage_put_def media_half_def room0_def)
  have r2: "refused (add_participant media_half ''m1'')" by (simp add: media_half_def)
  note inst1 = media_failure_is_local [of ply_env room0 call_request media_down
      "room0\<lparr>trace := [MediaCreate]\<rparr>" "''Failed to create meeting: quota''" ?s "''m1''"
      "Request call_request" 0 "FetchThrew []"]
  note inst2 = media_failure_is_local [of ply_env room0 call_request media_half
      "room0\<lparr>trace := [MediaCreate]\<rparr>" "''Failed to create meeting: quota''" ?s "''m1''"
      "Request call_request" 0 "FetchThrew []"]
  note inst3 = media_failure_is_local [of ply_env room0 call_request media_no_id
      "room0\<lparr>trace := [MediaCreate]\<rparr>" "''Failed to create meeting: quota''" ?s "''m1''"
      "Request call_request" 0 "FetchThrew []"]
  from inst1 h1 have c1: "storage (room0\<lparr>trace := [MediaCreate]\<rparr>) ''fen'' = storage room0 ''fen''"
    by blast
  from inst3 path none r1
  have c3: "\<exists>msg. GameRoom_fetch ply_env room0 call_request media_no_id =
      (room0\<lparr>trace := trace room0 @ [MediaCreate]\<rparr>, CallError msg)"
    by blast
  from inst2 path e r2 have "\<exists>msg. GameRoom_fetch ply_env room0 call_request media_half =
         (?s\<lparr>trace := trace ?s @ [MediaAddParticipant ''m1'']\<rparr>, CallError msg)"
    by blast
  then have c2: "\<exists>msg. GameRoom_fetch ply_env room0 call_request media_half =
      (room0\<lparr>storage := (storage room0)(''meetingId'' \<mapsto> ''m1''),
         trace := [MediaCreate, StoragePut ''meetingId'' ''m1'', MediaAddParticipant ''m1'']\<rparr>,
       CallError msg)"
    by simp
  from inst1 path have c4: "sockets (room_step ply_env room0 (Request call_request)) = sockets room0"
    by blast
  from h1 c1 path none r1 c3 e r2 c2 c4 show ?thesis by blast
qed

section \<open>The claims about the Matching Queue\<close>

lemma incoming_id_anonymous:
  "incoming_id uuid q None = (uuid (drawn q), q\<lparr>drawn := Suc (drawn q)\<rparr>)"
  by (simp add: incoming_id_def randomUUID_def)

lemma incoming_id_slot: "incoming_id uuid q playerId = (i, q1) \<Longrightarrow> slot q1 = slot q"
  by (auto simp: incoming_id_def randomUUID_def split: option.splits if_splits)

lemma join_empty:
  assumes "incoming_id uuid q playerId = (i, q1)" and "slot q ''waiting'' = None"
  shows "MatchingQueue_fetch uuid q (Body playerId) =
           (q1\<lparr>slot := (slot q)(''waiting'' \<mapsto> i), drawn := Suc (drawn q1)\<rparr>,
            Inr (Reply Waiting (Some (uuid (drawn q1))) (Some ''white'') None))"
  using assms incoming_id_slot [OF assms(1)]
  by (simp add: MatchingQueue_fetch_def randomUUID_def)

lemma join_second:
  assumes "incoming_id uuid q playerId = (i, q1)" and "slot q ''waiting'' = Some w"
    and "w \<noteq> i"
  shows "MatchingQueue_fetch uuid q (Body playerId) =
           (q1\<lparr>slot := (slot q)(''waiting'' := None), drawn := Suc (drawn q1)\<rparr>,
            Inr (Reply Matched (Some (uuid (drawn q1))) (Some ''black'') (Some w)))"
  using assms incoming_id_slot [OF assms(1)]
  by (simp add: MatchingQueue_fetch_def randomUUID_def)





text \<open>
  C10. A join without \<^verbatim>\<open>playerId\<close> takes the next value of \<^verbatim>\<open>crypto.randomUUID()\<close>
  as its identifier before the slot is looked at. When the slot is held and that value
  differs from the holder, the join is answered matched, with the holder as opponent, and
  the slot is cleared. So two anonymous joins in a row on an empty slot pair the second
  with the identifier generated for the first, as long as the two generated identifiers
  differ.
\<close>

theorem anonymous_join_is_a_new_player:
  "incoming_id uuid q None = (uuid (drawn q), q\<lparr>drawn := Suc (drawn q)\<rparr>)
   \<and>
   (slot q ''waiting'' = Some w \<and> uuid (drawn q) \<noteq> w \<longrightarrow>
      MatchingQueue_fetch uuid q (Body None) =
        (q\<lparr>slot := (slot q)(''waiting'' := None), drawn := Suc (Suc (drawn q))\<rparr>,
         Inr (Reply Matched (Some (uuid (Suc (drawn q)))) (Some ''black'') (Some w))))
   \<and>
   (slot q ''waiting'' = None \<and> uuid (drawn q) \<noteq> uuid (Suc (Suc (drawn q))) \<longrightarrow>
      queue_run uuid q [Body None, Body None] =
        (q\<lparr>slot := (slot q)(''waiting'' := None), drawn := drawn q + 4\<rparr>,
         [Inr (Reply Waiting (Some (uuid (Suc (drawn q)))) (Some ''white'') None),
          Inr (Reply Matched (Some (uuid (drawn q + 3))) (Some ''black'')
                 (Some (uuid (drawn q))))]))"
proof (intro conjI impI)
  show "incoming_id uuid q None = (uuid (drawn q), q\<lparr>drawn := Suc (drawn q)\<rparr>)"
    by (rule incoming_id_anonymous)
next
  assume a: "slot q ''waiting'' = Some w \<and> uuid (drawn q) \<noteq> w"
  then have sl: "slot q ''waiting'' = Some w" and ne: "w \<noteq> uuid (drawn q)" by auto
  from join_second [OF incoming_id_anonymous [of uuid q] sl ne]
  show "MatchingQueue_fetch uuid q (Body None) =
        (q\<lparr>slot := (slot q)(''waiting'' := None), drawn := Suc (Suc (drawn q))\<rparr>,
         Inr (Reply Matched (Some (uuid (Suc (drawn q)))) (Some ''black'') (Some w)))"
    by simp
next
  assume a: "slot q ''waiting'' = None \<and> uuid (drawn q) \<noteq> uuid (Suc (Suc (drawn q)))"
  let ?q1 = "q\<lparr>slot := (slot q)(''waiting'' \<mapsto> uuid (drawn q)), drawn := Suc (Suc (drawn q))\<rparr>"
  from a join_empty [OF incoming_id_anonymous [of uuid q]]
  have first: "MatchingQueue_fetch uuid q (Body None) =
      (?q1, Inr (Reply Waiting (Some (uuid (Suc (drawn q)))) (Some ''white'') None))"
    by simp
  have sl: "slot ?q1 ''waiting'' = Some (uuid (drawn q))" by simp
  have ne: "uuid (drawn q) \<noteq> uuid (drawn ?q1)" using a by simp
  from join_second [OF incoming_id_anonymous [of uuid ?q1] sl ne]
  have second: "MatchingQueue_fetch uuid ?q1 (Body None) =
      (q\<lparr>slot := (slot q)(''waiting'' := None), drawn := drawn q + 4\<rparr>,
       Inr (Reply Matched (Some (uuid (drawn q + 3))) (Some ''black'') (Some (uuid (drawn q)))))"
    by (simp add: numeral_3_eq_3 eval_nat_numeral)
  show "queue_run uuid q [Body None, Body None] =
        (q\<lparr>slot := (slot q)(''waiting'' := None), drawn := drawn q + 4\<rparr>,
         [Inr (Reply Waiting (Some (uuid (Suc (drawn q)))) (Some ''white'') None),
          Inr (Reply Matched (Some (uuid (drawn q + 3))) (Some ''black'')
                 (Some (uuid (drawn q))))])"
    by (simp add: first second)
qed

theorem anonymous_join_is_a_new_player_witness:
  "slot queue0 ''waiting'' = None \<and>
   tally (drawn queue0) \<noteq> tally (Suc (Suc (drawn queue0))) \<and>
   queue_run tally queue0 [Body None, Body None] =
     (\<lparr>slot = Map.empty, drawn = 4\<rparr>,
      [Inr (Reply Waiting (Some ''u1'') (Some ''white'') None),
       Inr (Reply Matched (Some ''u111'') (Some ''black'') (Some ''u''))]) \<and>
   slot \<lparr>slot = [''waiting'' \<mapsto> ''A''], drawn = 1\<rparr> ''waiting'' = Some ''A'' \<and>
   tally (drawn \<lparr>slot = [''waiting'' \<mapsto> ''A''], drawn = 1\<rparr>) \<noteq> ''A'' \<and>
   MatchingQueue_fetch tally \<lparr>slot = [''waiting'' \<mapsto> ''A''], drawn = 1\<rparr> (Body None) =
     (\<lparr>slot = Map.empty, drawn = 3\<rparr>,
      Inr (Reply Matched (Some ''u11'') (Some ''black'') (Some ''A'')))"
proof -
  let ?q1 = "\<lparr>slot = [''waiting'' \<mapsto> ''A''], drawn = 1\<rparr>"
  have s0: "slot queue0 ''waiting'' = None" by (simp add: queue0_def)
  have d0: "tally (drawn queue0) \<noteq> tally (Suc (Suc (drawn queue0)))"
    by (simp add: queue0_def tally_def)
  have s1: "slot ?q1 ''waiting'' = Some ''A''" by simp
  have d1: "tally (drawn ?q1) \<noteq> ''A''" by (simp add: tally_def)
  from anonymous_join_is_a_new_player [of tally queue0] s0 d0
  have "queue_run tally queue0 [Body None, Body None] =
        (queue0\<lparr>slot := (slot queue0)(''waiting'' := None), drawn := drawn queue0 + 4\<rparr>,
         [Inr (Reply Waiting (Some (tally (Suc (drawn queue0)))) (Some ''white'') None),
          Inr (Reply Matched (Some (tally (drawn queue0 + 3))) (Some ''black'')
                 (Some (tally (drawn queue0))))])"
    by blast
  then have c0: "queue_run tally queue0 [Body None, Body None] =
     (\<lparr>slot = Map.empty, drawn = 4\<rparr>,
      [Inr (Reply Waiting (Some ''u1'') (Some ''white'') None),
       Inr (Reply Matched (Some ''u111'') (Some ''black'') (Some ''u''))])"
    by (simp add: queue0_def tally_def numeral_3_eq_3)
  from anonymous_join_is_a_new_player [of tally ?q1 "''A''"] s1 d1
  have "MatchingQueue_fetch tally ?q1 (Body None) =
        (?q1\<lparr>slot := (slot ?q1)(''waiting'' := None), drawn := Suc (Suc (drawn ?q1))\<rparr>,
         Inr (Reply Matched (Some (tally (Suc (drawn ?q1)))) (Some ''black'') (Some ''A'')))"
    by blast
  then have c1: "MatchingQueue_fetch tally ?q1 (Body None) =
     (\<lparr>slot = Map.empty, drawn = 3\<rparr>,
      Inr (Reply Matched (Some ''u11'') (Some ''black'') (Some ''A'')))"
    by (simp add: tally_def numeral_2_eq_2 numeral_3_eq_3)
  from s0 d0 c0 s1 d1 c1 show ?thesis by blast
qed

end
